theory Spec2Isabelle
  imports Main "HOL-Library.Word"
begin

section \<open>Binary transport codec\<close>

text \<open>
  The page cannot hand an \<open>ArrayBuffer\<close> to the host process, so \<open>app.js\<close> turns the
  buffer into a string with one UTF-16 code unit per byte (\<open>arrayBufferToString\<close>) and
  \<open>index.js\<close> turns the string back into bytes (\<open>stringToArrayBuffer\<close>).
  A byte is an 8-bit word, a code unit a 16-bit word, a JavaScript string the list of
  its code units.
\<close>

type_synonym byte = "8 word"
type_synonym code_unit = "16 word"
type_synonym js_string = "code_unit list"

text \<open>\<open>const blocksize = 8192\<close> (app.js, line 330).\<close>

definition blocksize :: nat where
  "blocksize = 8192"

text \<open>
  \<open>String.fromCharCode.apply(null, view)\<close>: every element of the byte view becomes the
  code unit of the same value.
\<close>

definition fromCharCode :: "byte list \<Rightarrow> js_string" where
  "fromCharCode view = map ucast view"

text \<open>
  \<open>TypedArray.prototype.subarray(begin, end)\<close> for non-negative arguments: both ends
  are clamped to the length of the view, and an empty view results when the clamped
  end is not after the clamped begin.
\<close>

definition subarray :: "'a list \<Rightarrow> nat \<Rightarrow> nat \<Rightarrow> 'a list" where
  "subarray view b e =
     take (min e (length view) - min b (length view)) (drop (min b (length view)) view)"

text \<open>
  \<open>parseInt(length / blocksize)\<close>: the quotient is a double, \<open>parseInt\<close> prints it and
  reads the digits before the decimal point. A typed array has fewer than \<open>2^53\<close>
  elements, so the quotient is either 0 or lies between \<open>2^-13\<close> and \<open>2^40\<close>, where
  the printed form is plain decimal notation and the digits read are the integer part.
\<close>

definition parseInt_quotient :: "nat \<Rightarrow> nat \<Rightarrow> nat" where
  "parseInt_quotient n d = n div d"

text \<open>
  The loop of lines 335-337:
  \<^verbatim>\<open>for (let i = 0; i < blocklength; i += blocksize)
    result += String.fromCharCode.apply(null, bufView.subarray(i, i + blocksize));\<close>
\<close>

function block_loop :: "byte list \<Rightarrow> nat \<Rightarrow> nat \<Rightarrow> js_string \<Rightarrow> js_string" where
  "block_loop bufView blocklength i result =
     (if i < blocklength
      then block_loop bufView blocklength (i + blocksize)
             (result @ fromCharCode (subarray bufView i (i + blocksize)))
      else result)"
  by pat_completeness auto
termination
  by (relation "measure (\<lambda>(bufView, blocklength, i, result). blocklength - i)")
     (auto simp: blocksize_def)

declare block_loop.simps [simp del]

definition arrayBufferToString :: "byte list \<Rightarrow> js_string" where
  "arrayBufferToString buffer =
     (let bufView = buffer;
          len = length bufView;
          blocklength = parseInt_quotient len blocksize * blocksize;
          result = block_loop bufView blocklength 0 []
      in if len > blocklength
         then result @ fromCharCode (subarray bufView blocklength len)
         else result)"

text \<open>
  The same function with the pieces that \<open>result +=\<close> appends kept apart, in the order
  the code appends them: the loop's pieces, then the trailing piece when the guard of
  line 340 holds.
\<close>

function block_loop_pieces ::
  "byte list \<Rightarrow> nat \<Rightarrow> nat \<Rightarrow> js_string list \<Rightarrow> js_string list" where
  "block_loop_pieces bufView blocklength i pieces =
     (if i < blocklength
      then block_loop_pieces bufView blocklength (i + blocksize)
             (pieces @ [fromCharCode (subarray bufView i (i + blocksize))])
      else pieces)"
  by pat_completeness auto
termination
  by (relation "measure (\<lambda>(bufView, blocklength, i, pieces). blocklength - i)")
     (auto simp: blocksize_def)

declare block_loop_pieces.simps [simp del]

definition appended_pieces :: "byte list \<Rightarrow> js_string list" where
  "appended_pieces buffer =
     (let bufView = buffer;
          len = length bufView;
          blocklength = parseInt_quotient len blocksize * blocksize;
          pieces = block_loop_pieces bufView blocklength 0 []
      in if len > blocklength
         then pieces @ [fromCharCode (subarray bufView blocklength len)]
         else pieces)"

text \<open>
  \<open>stringToArrayBuffer\<close> (index.js, lines 197-207). The buffer starts zero-filled; the
  loop stores \<open>string.charCodeAt(i)\<close> into a \<open>Uint8Array\<close>, which keeps the low eight
  bits of the code unit. The index stays below the length, so \<open>charCodeAt\<close> is always
  in range.
\<close>

function fill_loop :: "js_string \<Rightarrow> nat \<Rightarrow> nat \<Rightarrow> byte list \<Rightarrow> byte list" where
  "fill_loop string len i bufView =
     (if i < len
      then fill_loop string len (i + 1) (bufView[i := ucast (string ! i)])
      else bufView)"
  by pat_completeness auto
termination
  by (relation "measure (\<lambda>(string, len, i, bufView). len - i)") auto

declare fill_loop.simps [simp del]

definition stringToArrayBuffer :: "js_string \<Rightarrow> byte list" where
  "stringToArrayBuffer string =
     (let len = length string;
          buf = replicate (length string) 0
      in fill_loop string len 0 buf)"

text \<open>
  The split the specification describes: the full blocks given by floor division of
  the length by the block size, and the bytes after them.
\<close>

definition spec_blocks :: "byte list \<Rightarrow> byte list list" where
  "spec_blocks b =
     map (\<lambda>k. take blocksize (drop (k * blocksize) b)) [0 ..< length b div blocksize]"

definition spec_remainder :: "byte list \<Rightarrow> byte list" where
  "spec_remainder b = drop (length b div blocksize * blocksize) b"

section \<open>The recording page (app.js)\<close>

text \<open>
  The page is one single-threaded event loop. Its globals (\<open>room\<close>, \<open>recorders\<close>,
  \<open>videos\<close>, \<open>subscriptionCounts\<close>, \<open>recorderCount\<close>, \<open>emptyRoomTimeout\<close>, ...) are the
  fields of one state record, every function of \<open>app.js\<close> is a function from state to
  state, and what the page does to the outside (calls of the functions the host
  exposes, \<open>room.disconnect()\<close>) is appended to a trace. Identifiers, names and paths
  are strings of characters; numbers that count are naturals, \<open>recorderCount\<close> is an
  integer because the code decrements it without a lower bound.
\<close>

subsection \<open>Rooms, participants and tracks\<close>

datatype track_kind = Audio | Video | Data

fun kind_name :: "track_kind \<Rightarrow> string" where
  "kind_name Audio = ''audio''"
| "kind_name Video = ''video''"
| "kind_name Data = ''data''"

record track =
  track_id :: string
  track_sid :: string
  track_kind :: track_kind

record participant =
  participant_sid :: string
  participant_identity :: string
  participant_tracks :: "track list"

datatype room_state = Connected | Disconnected

record room =
  room_sid :: string
  room_name :: string
  local_participant_sid :: string
  room_state :: room_state
  room_participants :: "participant list"

subsection \<open>Recorders\<close>

text \<open>
  A \<open>MediaRecorder\<close> is an object of the browser with the three states of the
  MediaStream Recording API. The page sets fields and handlers on it and keeps
  references to it in closures after it has left the \<open>recorders\<close> map, so recorder
  objects live in a store indexed by their address.

  The closures the code installs are data: the continuation handed to
  \<open>trackUnsubscribed\<close> is one of the three function expressions of the source (line
  97, line 126, line 250), the \<open>ondataavailable\<close> handler is the one of line 295 with
  its captured \<open>filepath\<close> and \<open>filename\<close>, or the wrapper of line 178 around the handler
  it replaced. \<open>onerror\<close> and \<open>onstart\<close> are set once by \<open>startRecorder\<close> before
  \<open>start\<close> and never changed, so they are not fields.
\<close>

type_synonym rid = nat

datatype recorder_state = Inactive | Recording | Paused

datatype callback =
    UnsubscribedCallback
  | ShutdownCallback nat
  | RestartCallback track string

datatype data_handler =
    WriteChunk "string list" string
  | WriteLast data_handler

record stream =
  stream_track :: string
  stream_dummy_audio :: bool

record recorder =
  rec_filename :: string
  rec_mimeType :: string
  rec_stream :: stream
  rec_state :: recorder_state
  rec_buffer :: "byte list"
  rec_ondataavailable :: data_handler
  rec_onpause :: bool
  rec_onstop :: "callback option"

subsection \<open>What the page says and does to the outside\<close>

text \<open>
  The trace holds the calls of the exposed host functions in the order the page makes
  them (a log line is the string the template literal of the source builds), the call
  of \<open>room.disconnect()\<close>, and one observation that has no statement
  of its own in the source: \<open>Invoke cb n\<close> marks the call \<open>stopped_callback(recorderCount)\<close>
  of line 193 with the continuation and the argument it passes.
\<close>

datatype effect =
    Debug string
  | Info string
  | Error string
  | ParentClose "string option"
  | CreateRecording "string list" "string list" string
  | AppendRecording "string list" js_string nat
  | RoomDisconnect
  | Invoke callback int

subsection \<open>Tasks\<close>

text \<open>
  Everything that runs later is a task of the event loop: the events the browser
  queues for a recorder and for a file reader, and the events that come from outside
  the page (the room, the DOM, the timers, the recorder's time slice, the end of its stream and its errors,
  and the host evaluating \<open>main(...)\<close>, \<open>shutdown()\<close> and \<open>close()\<close>; the room that
  \<open>connect\<close> gives \<open>main\<close> comes with the call).
\<close>

datatype event =
    ParticipantConnected participant
  | ParticipantDisconnected participant
  | TrackSubscribed track participant
  | TrackUnsubscribed track participant
  | RoomDisconnected "string option"
  | RoomEnded
  | TimerFire nat
  | Resize nat
  | TimesliceElapsed rid
  | StreamEnded rid
  | RecorderError rid string
  | CallMain room
  | CallShutdown
  | CallClose

datatype task =
    FireStart rid
  | FirePause rid
  | FireDataAvailable rid
  | FireStop rid
  | FileReaderLoad "string list" string "byte list"
  | External event

record page =
  room :: "room option"
  shouldClose :: bool
  isClosing :: bool
  emptyRoomTimeout :: "nat option"
  recorders :: "(string \<times> rid) list"
  videos :: "string \<rightharpoonup> nat"
  subscriptionCounts :: "string \<rightharpoonup> nat"
  recorderCount :: int
  store :: "rid \<rightharpoonup> recorder"
  next_rid :: rid
  listeners :: "nat \<rightharpoonup> track \<times> string"
  next_element :: nat
  timers :: "(nat \<times> nat) list"
  next_timer :: nat
  handlers_registered :: bool
  disconnected_seen :: bool
  room_ended_seen :: bool
  settled :: "nat list"
  next_promise :: nat
  microtasks :: "nat list"
  tasks :: "task list"
  trace :: "effect list"
  h264_supported :: bool
  clock :: nat

definition roomEndingTimeoutSeconds :: nat where
  "roomEndingTimeoutSeconds = 60"

definition roomStartingTimeoutSeconds :: nat where
  "roomStartingTimeoutSeconds = 600"

definition emit :: "effect \<Rightarrow> page \<Rightarrow> page" where
  "emit e s = s\<lparr>trace := trace s @ [e]\<rparr>"

definition debug :: "string \<Rightarrow> page \<Rightarrow> page" where
  "debug m = emit (Debug m)"

definition info :: "string \<Rightarrow> page \<Rightarrow> page" where
  "info m = emit (Info m)"

definition error :: "string \<Rightarrow> page \<Rightarrow> page" where
  "error m = emit (Error m)"

definition parentClose :: "string option \<Rightarrow> page \<Rightarrow> page" where
  "parentClose e = emit (ParentClose e)"

definition enqueue :: "task \<Rightarrow> page \<Rightarrow> page" where
  "enqueue t s = s\<lparr>tasks := tasks s @ [t]\<rparr>"

text \<open>
  \<open>indent\<close> (app.js lines 17-19, index.js lines 193-195) puts two spaces before every
  line of a text.
\<close>

fun split_on :: "char \<Rightarrow> string \<Rightarrow> string list" where
  "split_on c [] = [[]]"
| "split_on c (x # xs) =
     (if x = c then [] # split_on c xs
      else (case split_on c xs of [] \<Rightarrow> [[x]] | l # ls \<Rightarrow> (x # l) # ls))"

fun join_with :: "string \<Rightarrow> string list \<Rightarrow> string" where
  "join_with sep [] = []"
| "join_with sep [x] = x"
| "join_with sep (x # y # ys) = x @ sep @ join_with sep (y # ys)"

definition indent :: "string \<Rightarrow> string" where
  "indent str = join_with [CHR 0x0A] (map (\<lambda>line. ''  '' @ line) (split_on (CHR 0x0A) str))"

text \<open>
  An exception that no handler catches reaches the \<open>error\<close> listener of the window
  (lines 21-23), which reports the indented stack of the error to the host; the
  statements after the throw do not run. The stack is the browser's text and is a
  parameter here.
\<close>

definition uncaught :: "string \<Rightarrow> page \<Rightarrow> page" where
  "uncaught stack = error ([CHR 0x0A, CHR 0x0A] @ indent stack @ [CHR 0x0A])"

subsection \<open>The JavaScript \<open>Map\<close> of recorders\<close>

text \<open>
  A \<open>Map\<close> keeps its entries in insertion order; \<open>set\<close> on a present key replaces the
  value in place, \<open>delete\<close> removes the entry.
\<close>

fun map_set :: "'k \<Rightarrow> 'v \<Rightarrow> ('k \<times> 'v) list \<Rightarrow> ('k \<times> 'v) list" where
  "map_set k v [] = [(k, v)]"
| "map_set k v ((k', v') # m) = (if k = k' then (k, v) # m else (k', v') # map_set k v m)"

definition map_delete :: "'k \<Rightarrow> ('k \<times> 'v) list \<Rightarrow> ('k \<times> 'v) list" where
  "map_delete k m = filter (\<lambda>e. fst e \<noteq> k) m"

subsection \<open>Paths\<close>

text \<open>The decimal digits of a number, as a template literal prints a count.\<close>

fun toString :: "nat \<Rightarrow> string" where
  "toString n =
     (if n < 10 then [''0123456789'' ! n]
      else toString (n div 10) @ [''0123456789'' ! (n mod 10)])"

declare toString.simps [simp del]

definition toString_int :: "int \<Rightarrow> string" where
  "toString_int i = (if i < 0 then ''-'' @ toString (nat (- i)) else toString (nat i))"


subsection \<open>The MediaRecorder interface\<close>

text \<open>
  The methods the page calls, as the MediaStream Recording API defines them:
  \<^item> \<open>start\<close> throws unless the recorder is inactive; it sets the state to
    \<open>recording\<close>, and the \<open>start\<close> event is fired from a task;
  \<^item> \<open>pause\<close> throws when the recorder is inactive and does nothing when it is paused;
    otherwise it sets the state to \<open>paused\<close> and the \<open>pause\<close> event is fired from a task;
  \<^item> \<open>requestData\<close> throws when the recorder is inactive; otherwise it queues a task
    that fires \<open>dataavailable\<close> with the data gathered so far and starts a new blob;
  \<^item> \<open>stop\<close> does nothing when the recorder is inactive; otherwise it sets the state
    to \<open>inactive\<close> and queues a task that fires \<open>dataavailable\<close> with the data gathered
    and then \<open>stop\<close>.
  The events are queued when the method is called and fired in that order.
\<close>

definition update_recorder :: "rid \<Rightarrow> (recorder \<Rightarrow> recorder) \<Rightarrow> page \<Rightarrow> page" where
  "update_recorder r f s =
     (case store s r of None \<Rightarrow> s | Some x \<Rightarrow> s\<lparr>store := (store s)(r \<mapsto> f x)\<rparr>)"

definition recorder_start :: "rid \<Rightarrow> page \<Rightarrow> page" where
  "recorder_start r s =
     (case store s r of
        None \<Rightarrow> s
      | Some x \<Rightarrow>
          if rec_state x = Inactive
          then enqueue (FireStart r) (update_recorder r (\<lambda>x. x\<lparr>rec_state := Recording\<rparr>) s)
          else uncaught ''InvalidStateError'' s)"

definition recorder_pause :: "rid \<Rightarrow> page \<Rightarrow> page" where
  "recorder_pause r s =
     (case store s r of
        None \<Rightarrow> s
      | Some x \<Rightarrow>
          (case rec_state x of
             Inactive \<Rightarrow> uncaught ''InvalidStateError'' s
           | Paused \<Rightarrow> s
           | Recording \<Rightarrow>
               enqueue (FirePause r) (update_recorder r (\<lambda>x. x\<lparr>rec_state := Paused\<rparr>) s)))"

definition recorder_stop :: "rid \<Rightarrow> page \<Rightarrow> page" where
  "recorder_stop r s =
     (case store s r of
        None \<Rightarrow> s
      | Some x \<Rightarrow>
          if rec_state x = Inactive then s
          else enqueue (FireStop r) (update_recorder r (\<lambda>x. x\<lparr>rec_state := Inactive\<rparr>) s))"

text \<open>
  The encoder hands bytes to the recorder's current blob. It may do so in any state:
  what it hands over after \<open>requestData\<close> has taken the blob, while it is flushed by
  \<open>stop\<close>, is the data of the \<open>dataavailable\<close> event that \<open>stop\<close> fires.
\<close>

definition capture :: "rid \<Rightarrow> byte list \<Rightarrow> page \<Rightarrow> page" where
  "capture r bytes s = update_recorder r (\<lambda>x. x\<lparr>rec_buffer := rec_buffer x @ bytes\<rparr>) s"

subsection \<open>Timers and promises\<close>

text \<open>
  The only timer callback of the page is \<open>parentClose\<close>, so a pending timer is its
  handle and its delay in milliseconds. \<open>clearTimeout\<close> removes the timer; a handle
  that is not pending is ignored.
\<close>

definition setTimeout_parentClose :: "nat \<Rightarrow> page \<Rightarrow> nat \<times> page" where
  "setTimeout_parentClose ms s =
     (next_timer s, s\<lparr>timers := timers s @ [(next_timer s, ms)], next_timer := next_timer s + 1\<rparr>)"

definition clearTimeout :: "nat \<Rightarrow> page \<Rightarrow> page" where
  "clearTimeout h s = s\<lparr>timers := filter (\<lambda>t. fst t \<noteq> h) (timers s)\<rparr>"

text \<open>
  \<open>shutdown()\<close> makes a promise per call. Resolving a promise a second time does
  nothing; the first time it queues the reaction registered by \<open>.then\<close> (lines
  145-150) as a microtask.
\<close>

definition resolve :: "nat \<Rightarrow> page \<Rightarrow> page" where
  "resolve p s =
     (if p \<in> set (settled s) then s
      else s\<lparr>settled := settled s @ [p], microtasks := microtasks s @ [p]\<rparr>)"

subsection \<open>\<open>startRecorder\<close> (lines 263-316) and the handlers it installs\<close>

definition startRecorder :: "stream \<Rightarrow> track \<Rightarrow> string \<Rightarrow> page \<Rightarrow> page" where
  "startRecorder strm track identity s =
     (let videoCodec = (if h264_supported s then ''h264'' else ''vp8'');
          codec = (if track_kind track = Video then videoCodec else ''opus'');
          mimeType = kind_name (track_kind track) @ ''/webm;codecs='' @ codec;
          s = info (''Using MIME type '' @ mimeType @ '' to record'') s;
          trackIndex = identity @ ''.'' @ kind_name (track_kind track);
          subscriptionCount =
            (case subscriptionCounts s trackIndex of None \<Rightarrow> 0 | Some n \<Rightarrow> n) + 1;
          s = s\<lparr>subscriptionCounts := (subscriptionCounts s)(trackIndex \<mapsto> subscriptionCount)\<rparr>
      in case room s of
           None \<Rightarrow> uncaught ''TypeError'' s
         | Some rm \<Rightarrow>
             let filepath =
                   [''recordings'', room_name rm, trackIndex, toString subscriptionCount @ ''.webm''];
                 metapath = butlast filepath @ [toString subscriptionCount @ ''.json''];
                 filename = join_with ''/'' filepath;
                 s = info (''Begin recording '' @ filename @ ''.'') s;
                 s = emit (CreateRecording filepath metapath mimeType) s;
                 s = info (''Starting recorder for '' @ filename @ ''.'') s;
                 r = next_rid s;
                 s = s\<lparr>next_rid := r + 1,
                       store := (store s)(r \<mapsto>
                         \<lparr>rec_filename = filename, rec_mimeType = mimeType, rec_stream = strm,
                          rec_state = Inactive, rec_buffer = [],
                          rec_ondataavailable = WriteChunk filepath filename,
                          rec_onpause = False, rec_onstop = None\<rparr>)\<rparr>;
                 s = s\<lparr>recorders := map_set (track_id track) r (recorders s)\<rparr>
             in recorder_start r s)"

text \<open>
  The handler of lines 295-309 and the wrapper of lines 178-184. The wrapper reads
  \<open>recorder.filename\<close> when it runs; the recorder's file name is passed along.
\<close>

fun ondataavailable :: "data_handler \<Rightarrow> string \<Rightarrow> byte list \<Rightarrow> page \<Rightarrow> page" where
  "ondataavailable (WriteChunk filepath filename) recorder_filename data s =
     (if length data = 0
      then error ''Received a data available event of size 0! Doing nothing!'' s
      else enqueue (FileReaderLoad filepath filename data) s)"
| "ondataavailable (WriteLast orig_handler) recorder_filename data s =
     (if length data = 0 then s
      else ondataavailable orig_handler recorder_filename data
             (info (''Writing last '' @ toString (length data) @ '' bytes to '' @ recorder_filename) s))"

text \<open>\<open>fileReader.onload\<close> (lines 302-307).\<close>

definition fileReader_onload :: "string list \<Rightarrow> string \<Rightarrow> byte list \<Rightarrow> page \<Rightarrow> page" where
  "fileReader_onload filepath filename buffer s =
     (let s = info (''Writing '' @ toString (length buffer) @ '' bytes to '' @ filename) s;
          start = clock s
      in emit (AppendRecording filepath (arrayBufferToString buffer) start) s)"

text \<open>\<open>recorder.onstart\<close> (lines 310-313) and \<open>recorder.onerror\<close> (lines 291-293).\<close>

definition onstart :: "rid \<Rightarrow> page \<Rightarrow> page" where
  "onstart r s =
     (case store s r of
        None \<Rightarrow> s
      | Some x \<Rightarrow>
          let s = s\<lparr>recorderCount := recorderCount s + 1\<rparr>
          in info (''Recorder '' @ rec_filename x @ '' started. Active recorder count is now ''
                   @ toString_int (recorderCount s) @ ''.'') s)"

definition onerror :: "string \<Rightarrow> page \<Rightarrow> page" where
  "onerror name s = error (''Recorder error '' @ name) s"

text \<open>
  The browser firing \<open>dataavailable\<close>: the event carries the data gathered since the
  last one, and gathering goes on into a new blob.
\<close>

definition fire_dataavailable :: "rid \<Rightarrow> page \<Rightarrow> page" where
  "fire_dataavailable r s =
     (case store s r of
        None \<Rightarrow> s
      | Some x \<Rightarrow>
          ondataavailable (rec_ondataavailable x) (rec_filename x) (rec_buffer x)
            (update_recorder r (\<lambda>x. x\<lparr>rec_buffer := []\<rparr>) s))"

subsection \<open>\<open>trackUnsubscribed\<close> (lines 170-201) and the handlers it installs\<close>

text \<open>
  \<open>recorders.get(trackid)\<close> gives a recorder object or \<open>undefined\<close>; the test of line
  174 holds when it gives a recorder whose state is \<open>recording\<close>. In both other cases
  the \<open>else\<close> branch logs the error of line 199.
\<close>

text \<open>The three continuations: line 97, lines 126-130, lines 250-255.\<close>

definition stopped_callback :: "callback \<Rightarrow> int \<Rightarrow> page \<Rightarrow> page" where
  "stopped_callback cb count s =
     (case cb of
        UnsubscribedCallback \<Rightarrow> s
      | ShutdownCallback p \<Rightarrow> if count \<le> 0 then resolve p s else s
      | RestartCallback track identity \<Rightarrow>
          startRecorder \<lparr>stream_track = track_id track, stream_dummy_audio = True\<rparr>
            track identity s)"

text \<open>\<open>recorder.onpause\<close> (lines 176-189).\<close>

definition onpause :: "rid \<Rightarrow> page \<Rightarrow> page" where
  "onpause r s =
     (case store s r of
        None \<Rightarrow> s
      | Some x \<Rightarrow>
          let s = update_recorder r
                    (\<lambda>x. x\<lparr>rec_ondataavailable := WriteLast (rec_ondataavailable x)\<rparr>) s;
              s = info (''Paused '' @ rec_filename x @ '', requesting final data.'') s
          in if rec_state x = Inactive then uncaught ''InvalidStateError'' s
             else
               let s = enqueue (FireDataAvailable r) s;
                   s = info (''Stopping '' @ rec_filename x @ '' completely.'') s
               in recorder_stop r s)"

text \<open>\<open>recorder.onstop\<close> (lines 190-194).\<close>

definition onstop :: "rid \<Rightarrow> callback \<Rightarrow> page \<Rightarrow> page" where
  "onstop r cb s =
     (case store s r of
        None \<Rightarrow> s
      | Some x \<Rightarrow>
          let s = s\<lparr>recorderCount := recorderCount s - 1\<rparr>;
              s = info (''Stopped '' @ rec_filename x @ ''. Active recorder count is now ''
                        @ toString_int (recorderCount s) @ ''.'') s;
              s = emit (Invoke cb (recorderCount s)) s
          in stopped_callback cb (recorderCount s) s)"

definition not_recording_message :: "string \<Rightarrow> string" where
  "not_recording_message trackid =
     ''Recorder for track '' @ trackid
     @ '' was not found or is not recording. Maybe already unsubscribed?''"

definition trackUnsubscribed :: "string \<Rightarrow> callback \<Rightarrow> page \<Rightarrow> page" where
  "trackUnsubscribed trackid cb s =
     (let s = info (''Unsubscribe from '' @ trackid) s;
          recorder = (case map_of (recorders s) trackid of
                        None \<Rightarrow> None
                      | Some r \<Rightarrow> (case store s r of None \<Rightarrow> None | Some x \<Rightarrow> Some (r, x)));
          s = s\<lparr>recorders := map_delete trackid (recorders s)\<rparr>
      in case recorder of
           Some (r, x) \<Rightarrow>
             if rec_state x = Recording
             then
               let s = update_recorder r (\<lambda>x. x\<lparr>rec_onpause := True\<rparr>) s;
                   s = update_recorder r (\<lambda>x. x\<lparr>rec_onstop := Some cb\<rparr>) s;
                   s = info (''Pausing '' @ rec_filename x @ '' before stopping it.'') s
               in recorder_pause r s
             else error (not_recording_message trackid) s
         | None \<Rightarrow> error (not_recording_message trackid) s)"

subsection \<open>\<open>shutdown\<close> (lines 124-151) and \<open>close\<close> (lines 154-159)\<close>

text \<open>
  \<open>recorders.forEach\<close> visits the entries in insertion order. The function it calls
  removes the entry being visited and no other, and adds none, so the entries
  visited are those of the map when the iteration starts. The continuation of lines
  126-130 closes over the promise of this call.
\<close>

definition recorders_forEach :: "nat \<Rightarrow> page \<Rightarrow> page" where
  "recorders_forEach p s =
     fold (\<lambda>(trackid, recorder) s. trackUnsubscribed trackid (ShutdownCallback p) s)
       (recorders s) s"

definition shutdown :: "page \<Rightarrow> page" where
  "shutdown s =
     (let p = next_promise s;
          s = s\<lparr>next_promise := p + 1\<rparr>
      in if length (recorders s) > 0
         then
           let s = info ''Shutting down any remaining recorders...'' s;
               s = (if recorderCount s \<noteq> int (length (recorders s))
                    then
                      let s = error (''Active recorder count '' @ toString_int (recorderCount s)
                                     @ '' doesn't match recorder size ''
                                     @ toString (length (recorders s)) @ ''.'') s;
                          s = error ''Will reset active recorder count to match.'' s
                      in s\<lparr>recorderCount := int (length (recorders s))\<rparr>
                    else s)
           in recorders_forEach p s
         else
           let s = info ''No active recorders to shut down.'' s
           in resolve p s)"

text \<open>The reaction of lines 145-150.\<close>

definition shutdown_then :: "page \<Rightarrow> page" where
  "shutdown_then s =
     (case room s of
        None \<Rightarrow> s
      | Some rm \<Rightarrow>
          if room_state rm \<noteq> Disconnected
          then
            let s = info ''Disconnecting from Room...'' s;
                s = emit RoomDisconnect s;
                s = s\<lparr>room := Some (rm\<lparr>room_state := Disconnected\<rparr>)\<rparr>
            in enqueue (External (RoomDisconnected None)) s
          else s)"

definition close :: "page \<Rightarrow> page" where
  "close s = (if isClosing s then s else s\<lparr>isClosing := True\<rparr>)"

subsection \<open>\<open>record\<close> (lines 218-261) and \<open>trackSubscribed\<close> (lines 162-168)\<close>

text \<open>
  \<open>_addDummyAudioStream\<close> adds a silent audio track to the stream; the stream records
  that it has one. A video element is its address; the \<open>resize\<close> listener added to it
  is the closure of line 248 with the track and the identity it captured. A clone of
  an element carries no listeners, and the element it replaces keeps its own.
\<close>

definition record_track :: "track \<Rightarrow> participant \<Rightarrow> page \<Rightarrow> page" where
  "record_track track participant s =
     (let trackid = track_id track;
          strm = \<lparr>stream_track = trackid, stream_dummy_audio = False\<rparr>
      in if track_kind track = Video
         then
           let strm = strm\<lparr>stream_dummy_audio := True\<rparr>;
               videoElement = next_element s;
               s = s\<lparr>next_element := next_element s + 1\<rparr>;
               s = (case videos s (participant_identity participant) of
                      None \<Rightarrow>
                        info (''Created a new <video> element for ''
                              @ participant_identity participant) s
                    | Some old \<Rightarrow>
                        info (''Replaced <video> element for ''
                              @ participant_identity participant) s);
               s = s\<lparr>videos := (videos s)(participant_identity participant \<mapsto> videoElement)\<rparr>;
               s = s\<lparr>listeners :=
                        (listeners s)(videoElement \<mapsto> (track, participant_identity participant))\<rparr>;
               s = info (''Added onresize event handler for ''
                         @ participant_identity participant @ '' video.'') s
           in startRecorder strm track (participant_identity participant) s
         else startRecorder strm track (participant_identity participant) s)"

definition trackSubscribed :: "track \<Rightarrow> participant \<Rightarrow> page \<Rightarrow> page" where
  "trackSubscribed track participant s =
     (if track_kind track = Data then s else record_track track participant s)"

text \<open>The \<open>resize\<close> listener (lines 248-256); a video element has the empty \<open>id\<close>.\<close>

definition onresize :: "track \<Rightarrow> string \<Rightarrow> page \<Rightarrow> page" where
  "onresize track identity s =
     (let s = info (''Video for participant '' @ identity @ '' has resized video element ''
                    @ '''' @ ''. Restarting recording on the same track.'') s
      in trackUnsubscribed (track_id track) (RestartCallback track identity) s)"

subsection \<open>\<open>main\<close> (lines 29-114) and the handlers of the room\<close>

definition trackClassName :: "track_kind \<Rightarrow> string" where
  "trackClassName k =
     (case k of Audio \<Rightarrow> ''RemoteAudioTrack'' | Video \<Rightarrow> ''RemoteVideoTrack''
      | Data \<Rightarrow> ''undefined'')"

definition participants_message :: "participant list \<Rightarrow> string" where
  "participants_message participants =
     ''There '' @ (if length participants > 1 then ''are'' else ''is'') @ '' ''
     @ toString (length participants) @ '' RemoteParticipant''
     @ (if length participants > 1 then ''s'' else '''') @ '' in the Room:''
     @ [CHR 0x0A, CHR 0x0A]
     @ concat (map (\<lambda>participant.
         ''  - RemoteParticipant '' @ participant_sid participant @ [CHR 0x0A]
         @ concat (map (\<lambda>track.
             if track_kind track = Data then []
             else ''    - '' @ trackClassName (track_kind track) @ '' '' @ track_sid track
                  @ [CHR 0x0A])
           (participant_tracks participant)))
       participants)"

text \<open>
  \<open>main\<close> after \<open>connect\<close> has resolved with the room. The handlers of the room are
  registered by the last statements, so an event of the room is handled only once
  \<open>main\<close> has run.
\<close>

definition main :: "room \<Rightarrow> page \<Rightarrow> page" where
  "main rm s =
     (let s = debug ''Connecting to Room...'' s;
          s = s\<lparr>room := Some rm\<rparr>;
          s = info (''Connected to Room '' @ room_sid rm @ '' as LocalParticipant ''
                    @ local_participant_sid rm @ ''.'') s
      in if shouldClose s then close s
         else
           let participants = room_participants rm;
               s = (if length participants = 0
                    then
                      let s = info ''There are no RemoteParticipants in the Room.'' s;
                          s = info (''I will wait for '' @ toString roomEndingTimeoutSeconds
                                    @ '' seconds before I give up and leave.'') s;
                          (h, s) = setTimeout_parentClose (roomStartingTimeoutSeconds * 1000) s
                      in s\<lparr>emptyRoomTimeout := Some h\<rparr>
                    else
                      let s = info (participants_message participants) s
                      in fold (\<lambda>participant s.
                                 fold (\<lambda>track s. trackSubscribed track participant s)
                                   (participant_tracks participant) s)
                           participants s)
           in s\<lparr>handlers_registered := True\<rparr>)"

text \<open>
  The room keeps its own list of participants: a participant is in it when the
  \<open>participantConnected\<close> handler runs and out of it when the
  \<open>participantDisconnected\<close> handler runs.
\<close>

definition room_add :: "participant \<Rightarrow> page \<Rightarrow> page" where
  "room_add p s =
     (case room s of
        None \<Rightarrow> s
      | Some rm \<Rightarrow> s\<lparr>room := Some (rm\<lparr>room_participants := room_participants rm @ [p]\<rparr>)\<rparr>)"

definition room_remove :: "participant \<Rightarrow> page \<Rightarrow> page" where
  "room_remove p s =
     (case room s of
        None \<Rightarrow> s
      | Some rm \<Rightarrow>
          s\<lparr>room := Some (rm\<lparr>room_participants :=
                 filter (\<lambda>q. participant_sid q \<noteq> participant_sid p) (room_participants rm)\<rparr>)\<rparr>)"

text \<open>Lines 65-71.\<close>

definition on_participantConnected :: "participant \<Rightarrow> page \<Rightarrow> page" where
  "on_participantConnected participant s =
     (let s = info (''RemoteParticipant '' @ participant_sid participant @ '' connected.'') s
      in case emptyRoomTimeout s of
           Some h \<Rightarrow> (clearTimeout h s)\<lparr>emptyRoomTimeout := None\<rparr>
         | None \<Rightarrow> s)"

text \<open>Lines 73-80.\<close>

definition on_participantDisconnected :: "participant \<Rightarrow> page \<Rightarrow> page" where
  "on_participantDisconnected participant s =
     (let s = info (''RemoteParticipant '' @ participant_sid participant @ '' disconnected.'') s;
          participants = (case room s of None \<Rightarrow> [] | Some rm \<Rightarrow> room_participants rm)
      in if length participants = 0
         then
           let s = info (''The last participant left. Will disconnect in ''
                         @ toString roomEndingTimeoutSeconds @ '' seconds'') s;
               (h, s) = setTimeout_parentClose (roomEndingTimeoutSeconds * 1000) s
           in s\<lparr>emptyRoomTimeout := Some h\<rparr>
         else s)"

text \<open>Lines 82-89 and 91-98.\<close>

definition on_trackSubscribed :: "track \<Rightarrow> participant \<Rightarrow> page \<Rightarrow> page" where
  "on_trackSubscribed track participant s =
     (if track_kind track = Data then s
      else
        let s = info (''Subscribed to '' @ trackClassName (track_kind track) @ '' ''
                      @ track_sid track @ '' published by RemoteParticipant ''
                      @ participant_sid participant) s
        in trackSubscribed track participant s)"

definition on_trackUnsubscribed :: "track \<Rightarrow> participant \<Rightarrow> page \<Rightarrow> page" where
  "on_trackUnsubscribed track participant s =
     (if track_kind track = Data then s
      else
        let s = info (''Unsubscribed from '' @ trackClassName (track_kind track) @ '' ''
                      @ track_sid track @ '' published by RemoteParticipant ''
                      @ participant_sid participant) s
        in trackUnsubscribed (track_id track) UnsubscribedCallback s)"

text \<open>Lines 100-103 and 105-108; \<open>once\<close> handlers run for the first event only.\<close>

definition on_disconnected :: "string option \<Rightarrow> page \<Rightarrow> page" where
  "on_disconnected err s =
     (if disconnected_seen s then s
      else
        let s = s\<lparr>disconnected_seen := True\<rparr>;
            s = info ''Disconnected from Room.'' s
        in parentClose err s)"

definition on_room_ended :: "page \<Rightarrow> page" where
  "on_room_ended s =
     (if room_ended_seen s then s
      else
        let s = s\<lparr>room_ended_seen := True\<rparr>;
            s = info ''Room ended. Closing everything down.'' s
        in parentClose (Some ''Room ended'') s)"

text \<open>A timer that is still pending fires: \<open>parentClose()\<close> is called without argument.\<close>

definition timer_fire :: "nat \<Rightarrow> page \<Rightarrow> page" where
  "timer_fire h s =
     (if h \<in> fst ` set (timers s) then parentClose None (clearTimeout h s) else s)"

subsection \<open>The event loop\<close>

definition set_room_disconnected :: "page \<Rightarrow> page" where
  "set_room_disconnected s =
     (case room s of
        None \<Rightarrow> s
      | Some rm \<Rightarrow> s\<lparr>room := Some (rm\<lparr>room_state := Disconnected\<rparr>)\<rparr>)"

definition handle_event :: "event \<Rightarrow> page \<Rightarrow> page" where
  "handle_event e s =
     (case e of
        ParticipantConnected p \<Rightarrow>
          (let s = room_add p s
           in if handlers_registered s then on_participantConnected p s else s)
      | ParticipantDisconnected p \<Rightarrow>
          (let s = room_remove p s
           in if handlers_registered s then on_participantDisconnected p s else s)
      | TrackSubscribed t p \<Rightarrow>
          if handlers_registered s then on_trackSubscribed t p s else s
      | TrackUnsubscribed t p \<Rightarrow>
          if handlers_registered s then on_trackUnsubscribed t p s else s
      | RoomDisconnected err \<Rightarrow>
          (let s = set_room_disconnected s
           in if handlers_registered s then on_disconnected err s else s)
      | RoomEnded \<Rightarrow> if handlers_registered s then on_room_ended s else s
      | TimerFire h \<Rightarrow> timer_fire h s
      | Resize el \<Rightarrow>
          (case listeners s el of
             None \<Rightarrow> s
           | Some (track, identity) \<Rightarrow> onresize track identity s)
      | TimesliceElapsed r \<Rightarrow>
          (case store s r of
             None \<Rightarrow> s
           | Some x \<Rightarrow> if rec_state x = Recording then fire_dataavailable r s else s)
      | StreamEnded r \<Rightarrow> recorder_stop r s
      | RecorderError r name \<Rightarrow> onerror name s
      | CallMain rm \<Rightarrow> main rm s
      | CallShutdown \<Rightarrow> shutdown s
      | CallClose \<Rightarrow> close s)"

text \<open>
  When the tracks of a recorder's stream end, the browser stops the recorder as
  \<open>stop()\<close> does. The task \<open>stop()\<close> queues fires \<open>dataavailable\<close> and then \<open>stop\<close>; the tasks of
  \<open>pause()\<close> and \<open>start()\<close> fire their one event. A handler that was never set does
  nothing.
\<close>

definition run_task :: "task \<Rightarrow> page \<Rightarrow> page" where
  "run_task t s =
     (case t of
        FireStart r \<Rightarrow> onstart r s
      | FirePause r \<Rightarrow>
          (case store s r of
             None \<Rightarrow> s
           | Some x \<Rightarrow> if rec_onpause x then onpause r s else s)
      | FireDataAvailable r \<Rightarrow> fire_dataavailable r s
      | FireStop r \<Rightarrow>
          (let s = fire_dataavailable r s
           in case store s r of
                None \<Rightarrow> s
              | Some x \<Rightarrow> (case rec_onstop x of None \<Rightarrow> s | Some cb \<Rightarrow> onstop r cb s))
      | FileReaderLoad filepath filename buffer \<Rightarrow> fileReader_onload filepath filename buffer s
      | External e \<Rightarrow> handle_event e s)"

text \<open>
  One turn of the loop takes the oldest task, runs it to completion, and then runs
  the microtasks it left: the reactions of the \<open>shutdown\<close> promises resolved meanwhile.
\<close>

definition run_microtasks :: "page \<Rightarrow> page" where
  "run_microtasks s = fold (\<lambda>p s. shutdown_then s) (microtasks s) (s\<lparr>microtasks := []\<rparr>)"

definition tick :: "page \<Rightarrow> page" where
  "tick s =
     (case tasks s of
        [] \<Rightarrow> s
      | t # ts \<Rightarrow> run_microtasks (run_task t (s\<lparr>tasks := ts\<rparr>)))"

fun run :: "nat \<Rightarrow> page \<Rightarrow> page" where
  "run 0 s = s"
| "run (Suc n) s = run n (tick s)"

text \<open>
  What happens around the page: an event is posted to the loop, the loop takes a
  turn, a recorder gathers bytes, time passes.
\<close>

datatype action = Post event | Tick | Capture rid "byte list" | Advance nat

definition step :: "action \<Rightarrow> page \<Rightarrow> page" where
  "step a s =
     (case a of
        Post e \<Rightarrow> enqueue (External e) s
      | Tick \<Rightarrow> tick s
      | Capture r bytes \<Rightarrow> capture r bytes s
      | Advance n \<Rightarrow> s\<lparr>clock := clock s + n\<rparr>)"

definition exec :: "action list \<Rightarrow> page \<Rightarrow> page" where
  "exec as s = fold step as s"

text \<open>The page when the script has loaded and nothing has happened yet.\<close>

definition initial_page :: "bool \<Rightarrow> page" where
  "initial_page h264 =
     \<lparr>room = None, shouldClose = False, isClosing = False, emptyRoomTimeout = None,
      recorders = [], videos = Map.empty, subscriptionCounts = Map.empty, recorderCount = 0,
      store = Map.empty, next_rid = 0, listeners = Map.empty, next_element = 0,
      timers = [], next_timer = 0, handlers_registered = False, disconnected_seen = False,
      room_ended_seen = False, settled = [], next_promise = 0, microtasks = [], tasks = [],
      trace = [], h264_supported = h264, clock = 0\<rparr>"

subsection \<open>Predicates on the state of the page\<close>

text \<open>The track id has a registered recorder, and that recorder is recording.\<close>

definition recording_at :: "page \<Rightarrow> string \<Rightarrow> bool" where
  "recording_at s trackid =
     (case map_of (recorders s) trackid of
        None \<Rightarrow> False
      | Some r \<Rightarrow> (case store s r of None \<Rightarrow> False | Some x \<Rightarrow> rec_state x = Recording))"

definition none_recording :: "page \<Rightarrow> bool" where
  "none_recording s = list_all (\<lambda>e. \<not> recording_at s (fst e)) (recorders s)"

text \<open>
  The log lines of \<open>shutdown\<close> when the count and the size of the map differ (lines
  134-135), and the log lines of \<open>trackUnsubscribed\<close> taking its \<open>else\<close> branch for
  each entry of a list.
\<close>

definition mismatch_log :: "page \<Rightarrow> effect list" where
  "mismatch_log s =
     (if recorderCount s \<noteq> int (length (recorders s))
      then [Error (''Active recorder count '' @ toString_int (recorderCount s)
                   @ '' doesn't match recorder size '' @ toString (length (recorders s)) @ ''.''),
            Error ''Will reset active recorder count to match.'']
      else [])"

definition unsubscribe_log :: "(string \<times> rid) list \<Rightarrow> effect list" where
  "unsubscribe_log es =
     concat (map (\<lambda>e. [Info (''Unsubscribe from '' @ fst e),
                         Error (not_recording_message (fst e))]) es)"

subsection \<open>A small room\<close>

text \<open>
  One participant with a video track and an audio track, and the empty room of the
  same name; the states below are reached from the initial page by the listed
  actions.
\<close>

definition video_track :: track where
  "video_track = \<lparr>track_id = ''v1'', track_sid = ''MT1'', track_kind = Video\<rparr>"

definition audio_track :: track where
  "audio_track = \<lparr>track_id = ''a1'', track_sid = ''MT2'', track_kind = Audio\<rparr>"

definition alice :: participant where
  "alice = \<lparr>participant_sid = ''PA1'', participant_identity = ''alice'',
            participant_tracks = [video_track, audio_track]\<rparr>"

definition demo_room :: room where
  "demo_room = \<lparr>room_sid = ''RM1'', room_name = ''demo'', local_participant_sid = ''PA0'',
                room_state = Connected, room_participants = [alice]\<rparr>"

definition empty_room :: room where
  "empty_room = demo_room\<lparr>room_participants := []\<rparr>"

text \<open>
  \<open>main\<close> has run for the room with Alice in it and has started a recorder for each
  of her two tracks; their \<open>start\<close> events are still queued.
\<close>

definition started_page :: page where
  "started_page = exec [Post (CallMain demo_room), Tick] (initial_page False)"

text \<open>
  Both recorders have started, and then the stream of the audio recorder has ended:
  the browser has stopped that recorder, which is still registered.
\<close>

definition ended_page :: page where
  "ended_page =
     exec [Tick, Tick, Post (StreamEnded 1), Tick, Tick,
           Post (TrackUnsubscribed video_track alice), Tick, Tick, Tick, Tick]
       started_page"

text \<open>Both recorders have started and nothing is pending.\<close>

definition running_page :: page where
  "running_page = exec [Tick, Tick] started_page"

text \<open>\<open>main\<close> has run for the room with nobody in it.\<close>

definition idle_page :: page where
  "idle_page = exec [Post (CallMain empty_room), Tick] (initial_page False)"

subsection \<open>Reading the trace\<close>

text \<open>
  The \<open>appendRecording\<close> calls of a trace, its \<open>createRecording\<close> calls, and the calls
  of continuations.
\<close>

definition appends :: "effect list \<Rightarrow> effect list" where
  "appends tr = filter (\<lambda>e. case e of AppendRecording fp chunk start \<Rightarrow> True | _ \<Rightarrow> False) tr"

definition creations :: "effect list \<Rightarrow> effect list" where
  "creations tr = filter (\<lambda>e. case e of CreateRecording fp mp mt \<Rightarrow> True | _ \<Rightarrow> False) tr"

definition invocations :: "effect list \<Rightarrow> effect list" where
  "invocations tr = filter (\<lambda>e. case e of Invoke cb n \<Rightarrow> True | _ \<Rightarrow> False) tr"

text \<open>
  The trace entries that are log lines only.
\<close>

definition silent :: "effect list \<Rightarrow> bool" where
  "silent tr =
     list_all (\<lambda>e. case e of Info m \<Rightarrow> True | Error m \<Rightarrow> True | Debug m \<Rightarrow> True | _ \<Rightarrow> False) tr"




subsection \<open>Names of the files\<close>

text \<open>
  The \<open>filepath\<close> and the \<open>metapath\<close> that \<open>startRecorder\<close> builds (lines 274-280) for a
  room name, an identity, a kind and a subscription count, and the MIME type it
  chooses (lines 264-266).
\<close>

definition recording_file :: "string \<Rightarrow> string \<Rightarrow> track_kind \<Rightarrow> nat \<Rightarrow> string list" where
  "recording_file name identity k n =
     [''recordings'', name, identity @ ''.'' @ kind_name k, toString n @ ''.webm'']"

definition metadata_file :: "string \<Rightarrow> string \<Rightarrow> track_kind \<Rightarrow> nat \<Rightarrow> string list" where
  "metadata_file name identity k n =
     [''recordings'', name, identity @ ''.'' @ kind_name k, toString n @ ''.json'']"




subsection \<open>The files of recorders and of pending loads\<close>

text \<open>
  The file a data handler writes to, the files for which a trace has a
  \<open>createRecording\<close> call, and the property that every recorder and every pending
  load of a file reader has a file that was created, and that the trace so far has
  its calls in order.
\<close>

fun base_path :: "data_handler \<Rightarrow> string list" where
  "base_path (WriteChunk filepath filename) = filepath"
| "base_path (WriteLast h) = base_path h"

definition created_files :: "effect list \<Rightarrow> string list list" where
  "created_files tr =
     concat (map (\<lambda>e. case e of CreateRecording fp mp mt \<Rightarrow> [fp] | _ \<Rightarrow> []) tr)"

fun created_before_append :: "string list list \<Rightarrow> effect list \<Rightarrow> bool" where
  "created_before_append seen [] = True"
| "created_before_append seen (e # tr) =
     (case e of
        CreateRecording filepath metapath mimeType \<Rightarrow> created_before_append (filepath # seen) tr
      | AppendRecording filepath chunk start \<Rightarrow>
          filepath \<in> set seen \<and> created_before_append seen tr
      | _ \<Rightarrow> created_before_append seen tr)"

fun task_file :: "task \<Rightarrow> string list option" where
  "task_file (FileReaderLoad fp fn d) = Some fp"
| "task_file t = None"

definition files_created :: "page \<Rightarrow> bool" where
  "files_created s \<longleftrightarrow>
     created_before_append [] (trace s) \<and>
     (\<forall>r x. store s r = Some x \<longrightarrow> base_path (rec_ondataavailable x) \<in> set (created_files (trace s))) \<and>
     (\<forall>t fp. t \<in> set (tasks s) \<longrightarrow> task_file t = Some fp \<longrightarrow> fp \<in> set (created_files (trace s)))"

text \<open>
  A step that makes no \<open>appendRecording\<close> call, keeps or creates the file of every
  recorder, and queues loads only for files of recorders or created files.
\<close>

definition grows :: "page \<Rightarrow> page \<Rightarrow> bool" where
  "grows s s' \<longleftrightarrow>
     (\<exists>xs. trace s' = trace s @ xs \<and> appends xs = []) \<and>
     (\<forall>r x'. store s' r = Some x' \<longrightarrow>
        (\<exists>x. store s r = Some x \<and> base_path (rec_ondataavailable x') = base_path (rec_ondataavailable x))
        \<or> base_path (rec_ondataavailable x') \<in> set (created_files (trace s'))) \<and>
     (\<forall>t fp. t \<in> set (tasks s') \<longrightarrow> task_file t = Some fp \<longrightarrow>
        t \<in> set (tasks s) \<or> fp \<in> set (created_files (trace s')) \<or>
        (\<exists>r x. store s r = Some x \<and> base_path (rec_ondataavailable x) = fp))"

text \<open>
  A whole session: Alice's two tracks are recorded, the audio recorder gathers three
  bytes, her audio track is unsubscribed, and the loop runs until nothing is left.
\<close>

definition session_actions :: "action list" where
  "session_actions =
     [Post (CallMain demo_room), Tick, Tick, Tick, Capture 1 [1, 2, 3],
      Post (TrackUnsubscribed audio_track alice), Tick, Tick, Tick, Tick, Tick]"

subsection \<open>Reading the drain of a shutdown\<close>

text \<open>
  The calls of continuations and of \<open>room.disconnect()\<close> in a trace, in their order.
\<close>

definition marks :: "effect list \<Rightarrow> effect list" where
  "marks tr = filter (\<lambda>e. case e of Invoke cb n \<Rightarrow> True | RoomDisconnect \<Rightarrow> True | _ \<Rightarrow> False) tr"

text \<open>
  The calls of a continuation that \<open>n\<close> \<open>stop\<close> events make when the count is \<open>c\<close> before
  the first of them: each handler takes one off the count and hands the continuation
  the result.
\<close>

fun stop_calls :: "callback \<Rightarrow> int \<Rightarrow> nat \<Rightarrow> effect list" where
  "stop_calls cb c 0 = []"
| "stop_calls cb c (Suc n) = Invoke cb (c - 1) # stop_calls cb (c - 1) n"

text \<open>The test of line 146: there is a room and it is not disconnected.\<close>

definition connected :: "page \<Rightarrow> bool" where
  "connected s = (case room s of None \<Rightarrow> False | Some rm \<Rightarrow> room_state rm \<noteq> Disconnected)"






section \<open>The host process (index.js)\<close>

text \<open>
  The globals of \<open>index.js\<close> are the fields of the host state: the guard \<open>isClosing\<close>,
  whether \<open>server\<close>, \<open>browser\<close> and \<open>page\<close> have been created, the files on disk,
  the \<open>appendFile\<close> calls that have been made and have not completed, the clock, and
  a trace of what the host does: its log lines, the calls it awaits, and the exit.
\<close>

datatype host_effect =
    LogDebug string
  | LogInfo string
  | LogError string
  | EvaluateShutdown
  | SetTimeout nat
  | ServerClose
  | EvaluateClose
  | BrowserClose
  | Throw string
  | Exit nat

text \<open>
  A call of \<open>appendFile\<close>: the path, the bytes, and the callback, which is the one of
  \<open>createRecording\<close> (lines 99-104) or the one of \<open>appendRecording\<close> (lines 114-121)
  with the \<open>filename\<close> and \<open>start\<close> it captured. The former remembers which recording
  its metadata describes.
\<close>

datatype write_callback = MetadataWritten "string list" | ChunkWritten string nat

record fs_write =
  w_path :: "string list"
  w_data :: "byte list"
  w_callback :: write_callback

record host =
  h_isClosing :: bool
  h_shouldClose :: bool
  h_server :: bool
  h_browser :: bool
  h_page :: bool
  h_directories :: "string list list"
  h_files :: "string list \<rightharpoonup> byte list"
  h_pending :: "fs_write list"
  h_now :: nat
  h_trace :: "host_effect list"

definition h_emit :: "host_effect \<Rightarrow> host \<Rightarrow> host" where
  "h_emit e h = h\<lparr>h_trace := h_trace h @ [e]\<rparr>"

subsection \<open>\<open>close\<close> (lines 148-191)\<close>

text \<open>
  The argument of \<open>close\<close>: nothing (or another falsy value), an \<open>Error\<close> with its
  stack, or a truthy value without a \<open>stack\<close> property, such as the string of line 107
  of app.js. For the last, \<open>indent(error.stack)\<close> calls \<open>split\<close> on \<open>undefined\<close> and
  throws.
\<close>

datatype close_argument = NoError | ErrorWithStack string | NoStack

text \<open>
  \<open>close\<close> is an \<open>async\<close> function: it runs until an \<open>await\<close>, and goes on from there
  when the awaited promise is settled. The points where it waits are the four
  \<open>await\<close>s of the body; a rejected promise ends the call there.
\<close>

datatype close_point = AwaitShutdown | AwaitGrace | AwaitPageClose | AwaitBrowserClose

datatype outcome = Fulfilled | Rejected

text \<open>Lines 186-190.\<close>

definition close_exit :: "close_argument \<Rightarrow> host \<Rightarrow> host \<times> close_point option" where
  "close_exit err h = (h_emit (Exit (if err \<noteq> NoError then 1 else 0)) h, None)"

text \<open>Lines 180-184.\<close>

definition close_browser :: "close_argument \<Rightarrow> host \<Rightarrow> host \<times> close_point option" where
  "close_browser err h =
     (if h_browser h
      then (h_emit BrowserClose (h_emit (LogDebug ''Closing browser...'') h),
            Some AwaitBrowserClose)
      else close_exit err h)"

text \<open>Lines 168-178.\<close>

definition close_server_page :: "close_argument \<Rightarrow> host \<Rightarrow> host \<times> close_point option" where
  "close_server_page err h =
     (let h = (if h_server h
               then h_emit (LogInfo ''Closed HTTP server.'')
                      (h_emit ServerClose (h_emit (LogDebug ''Closing HTTP server...'') h))
               else h)
      in if h_page h
         then (h_emit EvaluateClose (h_emit (LogDebug ''Closing page...'') h),
               Some AwaitPageClose)
         else close_browser err h)"

text \<open>Lines 164-166.\<close>

definition close_grace :: "host \<Rightarrow> host \<times> close_point option" where
  "close_grace h =
     (h_emit (SetTimeout 10000)
        (h_emit (LogInfo ''Waiting 10 seconds for everything to finish before exiting...'') h),
      Some AwaitGrace)"

text \<open>The call itself, up to its first \<open>await\<close> (lines 149-166).\<close>

definition close_call :: "close_argument \<Rightarrow> host \<Rightarrow> host \<times> close_point option" where
  "close_call err h =
     (if h_isClosing h then (h, None)
      else
        let h = h\<lparr>h_isClosing := True\<rparr>
        in case err of
             NoStack \<Rightarrow> (h_emit (Throw ''TypeError'') h, None)
           | _ \<Rightarrow>
             let h = (case err of
                        ErrorWithStack stack \<Rightarrow>
                          h_emit (LogError ([CHR 0x0A, CHR 0x0A] @ indent stack @ [CHR 0x0A])) h
                      | _ \<Rightarrow> h)
             in if h_page h
                then (h_emit EvaluateShutdown
                        (h_emit (LogDebug
                           ''Shutting down any remaining recorders and disconnecting room...'') h),
                      Some AwaitShutdown)
                else close_grace h)"

text \<open>The call going on after the promise it waited for has settled.\<close>

definition close_resume ::
  "close_point \<Rightarrow> close_argument \<Rightarrow> outcome \<Rightarrow> host \<Rightarrow> host \<times> close_point option" where
  "close_resume pt err out h =
     (if out = Rejected then (h, None)
      else case pt of
             AwaitShutdown \<Rightarrow>
               close_grace (h_emit (LogInfo ''All recorders shut down and room disconnected.'') h)
           | AwaitGrace \<Rightarrow> close_server_page err h
           | AwaitPageClose \<Rightarrow> close_browser err (h_emit (LogInfo ''Closed page.'') h)
           | AwaitBrowserClose \<Rightarrow> close_exit err (h_emit (LogInfo ''Closed browser.'') h))"

text \<open>
  One call of \<open>close\<close> with the outcomes of the promises it awaits, in order; and the
  same call with a second call of \<open>close\<close> made by someone else after the first has
  gone through \<open>k\<close> of its \<open>await\<close>s (\<open>k = 0\<close>: right after the first call has
  reached its first \<open>await\<close>).
\<close>

fun close_continue ::
  "close_argument \<Rightarrow> outcome list \<Rightarrow> host \<times> close_point option \<Rightarrow> host \<times> close_point option"
where
  "close_continue err outs (h, None) = (h, None)"
| "close_continue err [] (h, Some pt) = (h, Some pt)"
| "close_continue err (out # outs) (h, Some pt) =
     close_continue err outs (close_resume pt err out h)"

definition close_once :: "close_argument \<Rightarrow> outcome list \<Rightarrow> host \<Rightarrow> host \<times> close_point option" where
  "close_once err outs h = close_continue err outs (close_call err h)"


text \<open>The trace of the teardown stages, without the log lines.\<close>

definition is_stage :: "host_effect \<Rightarrow> bool" where
  "is_stage e =
     (case e of LogDebug m \<Rightarrow> False | LogInfo m \<Rightarrow> False | LogError m \<Rightarrow> False | _ \<Rightarrow> True)"

definition stages :: "host \<Rightarrow> host_effect list" where
  "stages h = filter is_stage (h_trace h)"

text \<open>The host once \<open>main\<close> has started the server, the browser and the page.\<close>

definition running_host :: host where
  "running_host =
     \<lparr>h_isClosing = False, h_shouldClose = False, h_server = True, h_browser = True,
      h_page = True, h_directories = [], h_files = Map.empty, h_pending = [], h_now = 0,
      h_trace = []\<rparr>"

subsection \<open>\<open>createRecording\<close> (lines 94-106) and \<open>appendRecording\<close> (lines 107-122)\<close>

text \<open>
  A string of characters as the JavaScript string with the same code units, and
  \<open>JSON.stringify\<close> of the object \<open>{ createTime, contentType }\<close>: a number prints in
  decimal, a string is quoted with \<open>"\<close> and \<open>\\<close> escaped (a MIME type has no control
  characters, the other characters JSON escapes).
\<close>

definition js_of_string :: "string \<Rightarrow> js_string" where
  "js_of_string str = map (\<lambda>c. word_of_nat (of_char c)) str"

definition json_quote :: "string \<Rightarrow> string" where
  "json_quote str =
     [CHR 0x22] @
     concat (map (\<lambda>c. if c = CHR 0x22 then [CHR 0x5C, CHR 0x22]
                        else if c = CHR 0x5C then [CHR 0x5C, CHR 0x5C] else [c]) str)
     @ [CHR 0x22]"

definition metaString :: "nat \<Rightarrow> string \<Rightarrow> string" where
  "metaString createTime contentType =
     ''{'' @ json_quote ''createTime'' @ '':'' @ toString createTime @ '','' @
     json_quote ''contentType'' @ '':'' @ json_quote contentType @ ''}''"

text \<open>
  \<open>appendFile\<close> returns at once; the write is pending until it completes, and only its
  callback says how it went. \<open>mkdirp\<close> is synchronous and is taken to succeed. A file
  is named by the segments that \<open>join\<close> puts together.
\<close>

definition appendFile :: "string list \<Rightarrow> byte list \<Rightarrow> write_callback \<Rightarrow> host \<Rightarrow> host" where
  "appendFile path bytes cb h =
     h\<lparr>h_pending := h_pending h @ [\<lparr>w_path = path, w_data = bytes, w_callback = cb\<rparr>]\<rparr>"

definition createRecording :: "string list \<Rightarrow> string list \<Rightarrow> string \<Rightarrow> host \<Rightarrow> host" where
  "createRecording filepath metapath mimeType h =
     (let h = h\<lparr>h_directories := h_directories h @ [take (length filepath - 1) filepath]\<rparr>;
          metaStr = metaString (h_now h) mimeType;
          h = appendFile metapath (stringToArrayBuffer (js_of_string metaStr))
                (MetadataWritten filepath) h
      in h_emit (LogInfo (''Created '' @ join_with ''/'' filepath @ '' and wrote metadata ''
                          @ metaStr)) h)"

definition appendRecording :: "string list \<Rightarrow> js_string \<Rightarrow> nat \<Rightarrow> host \<Rightarrow> host" where
  "appendRecording filepath chunk start h =
     (let filename = join_with ''/'' filepath;
          buffer = stringToArrayBuffer chunk
      in appendFile filepath buffer (ChunkWritten filename start) h)"

text \<open>
  A pending write completes: the bytes are at the end of the file, or the write has
  failed with an error whose stack is given. Then its callback runs (lines 99-104,
  lines 114-121). Which pending write completes next is not up to the host.
\<close>

datatype write_result = Written | Failed string

definition run_write_callback :: "fs_write \<Rightarrow> write_result \<Rightarrow> host \<Rightarrow> host" where
  "run_write_callback w res h =
     (case w_callback w of
        MetadataWritten filepath \<Rightarrow>
          (case res of
             Failed stack \<Rightarrow>
               h_emit (LogError ([CHR 0x0A] @ ''Error writing metadata'' @ [CHR 0x0A]
                                 @ indent stack @ [CHR 0x0A])) h
           | Written \<Rightarrow> h)
      | ChunkWritten filename start \<Rightarrow>
          (case res of
             Failed stack \<Rightarrow>
               h_emit (LogError ([CHR 0x0A, CHR 0x0A] @ indent stack @ [CHR 0x0A])) h
           | Written \<Rightarrow>
               h_emit (LogDebug (''Wrote '' @ toString (length (w_data w)) @ '' bytes to ''
                                 @ filename @ '' in ''
                                 @ toString_int (int (h_now h) - int start) @ ''ms'')) h))"

definition complete_write :: "nat \<Rightarrow> write_result \<Rightarrow> host \<Rightarrow> host" where
  "complete_write i res h =
     (if i < length (h_pending h)
      then
        let w = h_pending h ! i;
            h = h\<lparr>h_pending := take i (h_pending h) @ drop (Suc i) (h_pending h)\<rparr>;
            h = (case res of
                   Written \<Rightarrow>
                     h\<lparr>h_files := (h_files h)(w_path w \<mapsto>
                          (case h_files h (w_path w) of None \<Rightarrow> [] | Some old \<Rightarrow> old)
                          @ w_data w)\<rparr>
                 | Failed stack \<Rightarrow> h)
        in run_write_callback w res h
      else h)"

text \<open>
  The host receives the calls of the page in the order the page makes them. The
  argument of \<open>parentClose\<close> crosses the bridge as JSON, so an error object or a
  string arrives as a value without a stack.
\<close>

definition host_receive :: "effect \<Rightarrow> host \<Rightarrow> host" where
  "host_receive e h =
     (case e of
        Debug m \<Rightarrow> h_emit (LogDebug m) h
      | Info m \<Rightarrow> h_emit (LogInfo m) h
      | Error m \<Rightarrow> h_emit (LogError m) h
      | ParentClose a \<Rightarrow>
          fst (close_call (case a of None \<Rightarrow> NoError | Some v \<Rightarrow> NoStack) h)
      | CreateRecording filepath metapath mimeType \<Rightarrow>
          createRecording filepath metapath mimeType h
      | AppendRecording filepath chunk start \<Rightarrow> appendRecording filepath chunk start h
      | RoomDisconnect \<Rightarrow> h
      | Invoke cb n \<Rightarrow> h)"

definition deliver :: "effect list \<Rightarrow> host \<Rightarrow> host" where
  "deliver tr h = fold host_receive tr h"

subsection \<open>Order of calls\<close>

text \<open>
  In a trace of the page, every \<open>appendRecording\<close> call comes after a
  \<open>createRecording\<close> call for the same file; in a list of \<open>appendFile\<close> calls, every
  write of a chunk comes after the write of the metadata of the same file.
\<close>

fun metadata_first :: "string list list \<Rightarrow> fs_write list \<Rightarrow> bool" where
  "metadata_first seen [] = True"
| "metadata_first seen (w # ws) =
     (case w_callback w of
        MetadataWritten filepath \<Rightarrow> metadata_first (filepath # seen) ws
      | ChunkWritten filename start \<Rightarrow> w_path w \<in> set seen \<and> metadata_first seen ws)"

text \<open>On disk: every recording file that exists has its metadata file beside it.\<close>

definition metadata_on_disk :: "(string list \<times> string list) list \<Rightarrow> host \<Rightarrow> bool" where
  "metadata_on_disk pairs h =
     list_all (\<lambda>(filepath, metapath). h_files h filepath = None \<or> h_files h metapath \<noteq> None) pairs"

text \<open>
  The host has received \<open>createRecording\<close> and then \<open>appendRecording\<close> for Alice's
  first audio file, and of the two pending writes the second, the chunk, has
  completed.
\<close>

definition racing_host :: host where
  "racing_host =
     complete_write 1 Written
       (host_receive
          (AppendRecording (recording_file ''demo'' ''alice'' Audio 1) (fromCharCode [1, 2, 3]) 0)
          (host_receive
             (CreateRecording (recording_file ''demo'' ''alice'' Audio 1)
                (metadata_file ''demo'' ''alice'' Audio 1) ''audio/webm;codecs=opus'')
             running_host))"


section \<open>Properties of the codec\<close>

lemma subarray_take_drop:
  "b \<le> e \<Longrightarrow> e \<le> length v \<Longrightarrow> subarray v b e = take (e - b) (drop b v)"
  by (simp add: subarray_def)

lemma fromCharCode_append: "fromCharCode (xs @ ys) = fromCharCode xs @ fromCharCode ys"
  by (simp add: fromCharCode_def)

lemma take_add_drop: "take (n + m) xs = take n xs @ take m (drop n xs)"
  by (simp add: take_add)

lemma block_loop_steps:
  "i + k * blocksize \<le> length v \<Longrightarrow>
   block_loop v (i + k * blocksize) i r = r @ fromCharCode (take (k * blocksize) (drop i v))"
proof (induction k arbitrary: i r)
  case 0
  then show ?case by (simp add: block_loop.simps fromCharCode_def)
next
  case (Suc k)
  have pos: "0 < blocksize" by (simp add: blocksize_def)
  have lt: "i < i + Suc k * blocksize" using pos by simp
  have le: "i + blocksize \<le> length v" using Suc.prems by simp
  have ih: "block_loop v ((i + blocksize) + k * blocksize) (i + blocksize)
              (r @ fromCharCode (subarray v i (i + blocksize)))
            = (r @ fromCharCode (subarray v i (i + blocksize)))
              @ fromCharCode (take (k * blocksize) (drop (i + blocksize) v))"
    using Suc.prems by (intro Suc.IH) simp
  have sub: "subarray v i (i + blocksize) = take blocksize (drop i v)"
    using le by (simp add: subarray_take_drop)
  have split: "take (Suc k * blocksize) (drop i v)
      = take blocksize (drop i v) @ take (k * blocksize) (drop (i + blocksize) v)"
    by (simp add: take_add add.commute)
  have e: "i + Suc k * blocksize = (i + blocksize) + k * blocksize" by simp
  have "block_loop v (i + Suc k * blocksize) i r =
        block_loop v (i + Suc k * blocksize) (i + blocksize)
          (r @ fromCharCode (subarray v i (i + blocksize)))"
    using lt by (subst block_loop.simps) simp
  also have "\<dots> = (r @ fromCharCode (subarray v i (i + blocksize)))
              @ fromCharCode (take (k * blocksize) (drop (i + blocksize) v))"
    unfolding e by (rule ih)
  also have "\<dots> = r @ fromCharCode (take (Suc k * blocksize) (drop i v))"
    unfolding sub split by (simp add: fromCharCode_append)
  finally show ?case .
qed

lemma arrayBufferToString_map: "arrayBufferToString b = map ucast b"
proof -
  let ?q = "length b div blocksize"
  have le: "0 + ?q * blocksize \<le> length b" by simp
  have loop: "block_loop b (?q * blocksize) 0 [] = fromCharCode (take (?q * blocksize) b)"
    using block_loop_steps [OF le, of "[]"] by simp
  show ?thesis
  proof (cases "length b > ?q * blocksize")
    case True
    then have "arrayBufferToString b =
        fromCharCode (take (?q * blocksize) b) @ fromCharCode (drop (?q * blocksize) b)"
      by (simp add: arrayBufferToString_def parseInt_quotient_def Let_def loop
            subarray_take_drop)
    then show ?thesis by (simp add: fromCharCode_def flip: map_append)
  next
    case False
    moreover have "?q * blocksize \<le> length b" by simp
    ultimately have eq: "?q * blocksize = length b" by linarith
    have "arrayBufferToString b = fromCharCode (take (?q * blocksize) b)"
      using False
      by (simp add: arrayBufferToString_def parseInt_quotient_def Let_def loop)
    then show ?thesis by (simp add: eq fromCharCode_def)
  qed
qed

lemma fill_loop_steps:
  "i \<le> length s \<Longrightarrow> length buf = length s \<Longrightarrow>
   fill_loop s (length s) i buf = take i buf @ map ucast (drop i s)"
proof (induction "length s - i" arbitrary: i buf)
  case 0
  then show ?case by (simp add: fill_loop.simps)
next
  case (Suc n)
  then have lt: "i < length s" by simp
  have "fill_loop s (length s) i buf = fill_loop s (length s) (i + 1) (buf[i := ucast (s ! i)])"
    using lt by (subst fill_loop.simps) simp
  also have "\<dots> = take (i + 1) (buf[i := ucast (s ! i)]) @ map ucast (drop (i + 1) s)"
    using Suc lt by (intro Suc.hyps(1)) auto
  also have "take (i + 1) (buf[i := ucast (s ! i)]) = take i buf @ [ucast (s ! i)]"
    using lt Suc.prems by (simp add: take_Suc_conv_app_nth)
  also have "(take i buf @ [ucast (s ! i)]) @ map ucast (drop (i + 1) s)
      = take i buf @ map ucast (drop i s)"
    using lt by (simp add: Cons_nth_drop_Suc [symmetric])
  finally show ?case .
qed

lemma stringToArrayBuffer_map: "stringToArrayBuffer s = map ucast s"
  using fill_loop_steps [of 0 s "replicate (length s) 0"]
  by (simp add: stringToArrayBuffer_def Let_def)

lemma byte_code_unit_byte: "(ucast (ucast (x :: byte) :: code_unit) :: byte) = x"
  by (rule bit_word_eqI) (auto simp add: bit_ucast_iff dest: bit_imp_le_length)

lemma block_loop_pieces_steps:
  "i + k * blocksize \<le> length v \<Longrightarrow>
   block_loop_pieces v (i + k * blocksize) i ps =
     ps @ map (\<lambda>j. fromCharCode (take blocksize (drop (i + j * blocksize) v))) [0 ..< k]"
proof (induction k arbitrary: i ps)
  case 0
  then show ?case by (simp add: block_loop_pieces.simps)
next
  case (Suc k)
  have pos: "0 < blocksize" by (simp add: blocksize_def)
  have lt: "i < i + Suc k * blocksize" using pos by simp
  have le: "i + blocksize \<le> length v" using Suc.prems by simp
  have e: "i + Suc k * blocksize = (i + blocksize) + k * blocksize" by simp
  have sub: "subarray v i (i + blocksize) = take blocksize (drop i v)"
    using le by (simp add: subarray_take_drop)
  have ih: "block_loop_pieces v ((i + blocksize) + k * blocksize) (i + blocksize)
              (ps @ [fromCharCode (take blocksize (drop i v))])
            = (ps @ [fromCharCode (take blocksize (drop i v))])
              @ map (\<lambda>j. fromCharCode (take blocksize (drop ((i + blocksize) + j * blocksize) v)))
                  [0 ..< k]"
    using Suc.prems by (intro Suc.IH) simp
  have shift: "map (\<lambda>j. fromCharCode (take blocksize (drop (i + j * blocksize) v))) [0 ..< Suc k]
      = fromCharCode (take blocksize (drop i v))
        # map (\<lambda>j. fromCharCode (take blocksize (drop ((i + blocksize) + j * blocksize) v)))
            [0 ..< k]"
    by (simp add: upt_conv_Cons map_Suc_upt [symmetric] add.assoc del: upt_Suc)
  have "block_loop_pieces v (i + Suc k * blocksize) i ps =
        block_loop_pieces v (i + Suc k * blocksize) (i + blocksize)
          (ps @ [fromCharCode (take blocksize (drop i v))])"
    using lt by (subst block_loop_pieces.simps) (simp add: sub)
  also have "\<dots> = (ps @ [fromCharCode (take blocksize (drop i v))])
              @ map (\<lambda>j. fromCharCode (take blocksize (drop ((i + blocksize) + j * blocksize) v)))
                  [0 ..< k]"
    unfolding e by (rule ih)
  also have "\<dots> = ps @ map (\<lambda>j. fromCharCode (take blocksize (drop (i + j * blocksize) v)))
                        [0 ..< Suc k]"
    unfolding shift by simp
  finally show ?case .
qed

lemma loop_pieces_spec_blocks:
  "block_loop_pieces b (length b div blocksize * blocksize) 0 [] =
     map fromCharCode (spec_blocks b)"
proof -
  have "0 + length b div blocksize * blocksize \<le> length b" by simp
  from block_loop_pieces_steps [OF this, of "[]"]
  show ?thesis by (simp add: spec_blocks_def comp_def)
qed

lemma appended_pieces_spec:
  "appended_pieces b =
     map fromCharCode (spec_blocks b) @
     (if blocksize dvd length b then [] else [fromCharCode (spec_remainder b)])"
proof -
  let ?bl = "length b div blocksize * blocksize"
  have le: "?bl \<le> length b" by simp
  have iff: "?bl < length b \<longleftrightarrow> \<not> blocksize dvd length b"
    by (metis dvd_div_mult_self dvd_triv_right le less_le)
  have sub: "subarray b ?bl (length b) = spec_remainder b"
    by (simp add: subarray_take_drop spec_remainder_def)
  have unfold: "appended_pieces b =
      (if ?bl < length b
       then block_loop_pieces b ?bl 0 [] @ [fromCharCode (subarray b ?bl (length b))]
       else block_loop_pieces b ?bl 0 [])"
    by (simp only: appended_pieces_def parseInt_quotient_def Let_def)
  show ?thesis
    unfolding unfold loop_pieces_spec_blocks sub iff by simp
qed

lemma block_loop_concat:
  "block_loop v bl i (concat ps) = concat (block_loop_pieces v bl i ps)"
proof (induction v bl i ps rule: block_loop_pieces.induct)
  case (1 bufView blocklength i pieces)
  show ?case
  proof (cases "i < blocklength")
    case True
    with "1" [OF True] show ?thesis
      by (subst block_loop.simps, subst block_loop_pieces.simps) simp
  next
    case False
    then show ?thesis
      by (subst block_loop.simps, subst block_loop_pieces.simps) simp
  qed
qed

lemma arrayBufferToString_concat: "arrayBufferToString b = concat (appended_pieces b)"
  using block_loop_concat [of b _ 0 "[]"]
  by (simp add: arrayBufferToString_def appended_pieces_def Let_def)

lemma spec_blocks_length: "list_all (\<lambda>c. length c = blocksize) (spec_blocks b)"
proof -
  have "length (take blocksize (drop (k * blocksize) b)) = blocksize"
    if "k < length b div blocksize" for k
  proof -
    from that have "Suc k \<le> length b div blocksize" by simp
    then have "Suc k * blocksize \<le> length b div blocksize * blocksize"
      by (rule mult_le_mono1)
    also have "\<dots> \<le> length b" by simp
    finally show ?thesis by simp
  qed
  then show ?thesis by (simp add: spec_blocks_def list_all_iff)
qed

lemma concat_blocks_upto:
  "k * blocksize \<le> length b \<Longrightarrow>
   concat (map (\<lambda>j. take blocksize (drop (j * blocksize) b)) [0 ..< k]) = take (k * blocksize) b"
proof (induction k)
  case 0
  show ?case by simp
next
  case (Suc k)
  then have le: "k * blocksize \<le> length b" by simp
  have e: "Suc k * blocksize = k * blocksize + blocksize" by simp
  have "concat (map (\<lambda>j. take blocksize (drop (j * blocksize) b)) [0 ..< Suc k])
      = take (k * blocksize) b @ take blocksize (drop (k * blocksize) b)"
    using Suc.IH [OF le] by simp
  also have "\<dots> = take (Suc k * blocksize) b"
    unfolding e by (rule take_add [symmetric])
  finally show ?case .
qed

lemma spec_split_exact: "concat (spec_blocks b) @ spec_remainder b = b"
  by (simp add: spec_blocks_def spec_remainder_def concat_blocks_upto)

lemma spec_remainder_length: "length (spec_remainder b) = length b mod blocksize"
  by (simp add: spec_remainder_def minus_div_mult_eq_mod)

lemma pieces_nonempty: "[] \<notin> set (appended_pieces b)"
proof -
  have pos: "0 < blocksize" by (simp add: blocksize_def)
  have "c \<noteq> []" if "c \<in> set (spec_blocks b)" for c
    using spec_blocks_length [of b] that pos by (auto simp: list_all_iff)
  moreover have "spec_remainder b \<noteq> []" if "\<not> blocksize dvd length b"
    using that spec_remainder_length [of b] by (auto simp: dvd_eq_mod_eq_0)
  ultimately show ?thesis
    by (auto simp: appended_pieces_spec fromCharCode_def)
qed

text \<open>
  C2: decoding the transport encoding gives back the bytes, for every byte sequence:
  every length (zero, multiples of the block size and all others) and every byte value
  from 0 to 255, which is the whole of the type of bytes.
\<close>

theorem codec_round_trip: "stringToArrayBuffer (arrayBufferToString b) = b"
  by (simp add: arrayBufferToString_map stringToArrayBuffer_map byte_code_unit_byte comp_def)

text \<open>
  C8: the encoder appends one piece per full block, \<open>length b div blocksize\<close> of them,
  each the encoding of that block alone; when the length is a multiple of the block
  size nothing follows them, otherwise the encoding of the remaining bytes follows
  once. No appended piece is empty, the blocks have the block size, and the blocks
  followed by the remainder are the input: no byte is left out or repeated.
\<close>

theorem encode_chunking:
  "arrayBufferToString b = concat (appended_pieces b) \<and>
   appended_pieces b =
     map fromCharCode (spec_blocks b) @
     (if blocksize dvd length b then [] else [fromCharCode (spec_remainder b)]) \<and>
   [] \<notin> set (appended_pieces b) \<and>
   length (spec_blocks b) = length b div blocksize \<and>
   list_all (\<lambda>c. length c = blocksize) (spec_blocks b) \<and>
   length (spec_remainder b) = length b mod blocksize \<and>
   concat (spec_blocks b) @ spec_remainder b = b"
proof -
  have "length (spec_blocks b) = length b div blocksize"
    by (simp add: spec_blocks_def)
  with arrayBufferToString_concat appended_pieces_spec pieces_nonempty
    spec_blocks_length spec_remainder_length spec_split_exact
  show ?thesis by blast
qed

section \<open>Unsubscribing and shutting down\<close>

lemma trackUnsubscribed_not_recording_eq:
  assumes "\<not> recording_at s trackid"
  shows "trackUnsubscribed trackid cb s =
     s\<lparr>recorders := map_delete trackid (recorders s),
       trace := trace s @ [Info (''Unsubscribe from '' @ trackid),
                           Error (not_recording_message trackid)]\<rparr>"
  using assms
  by (auto intro!: page.equality
        simp: trackUnsubscribed_def recording_at_def Let_def
        info_def error_def emit_def split: option.splits)

lemma trackUnsubscribed_recording_eq:
  assumes "map_of (recorders s) trackid = Some r" "store s r = Some x" "rec_state x = Recording"
  shows "trackUnsubscribed trackid cb s =
     s\<lparr>recorders := map_delete trackid (recorders s),
       store := (store s)(r \<mapsto> x\<lparr>rec_state := Paused, rec_onpause := True, rec_onstop := Some cb\<rparr>),
       tasks := tasks s @ [FirePause r],
       trace := trace s @ [Info (''Unsubscribe from '' @ trackid),
                           Info (''Pausing '' @ rec_filename x @ '' before stopping it.'')]\<rparr>"
  using assms
  by (auto intro!: page.equality recorder.equality
        simp: trackUnsubscribed_def Let_def recorder_pause_def update_recorder_def
        info_def error_def emit_def enqueue_def fun_eq_iff)

lemma recording_atE:
  assumes "recording_at s t"
  obtains r x where "map_of (recorders s) t = Some r" "store s r = Some x" "rec_state x = Recording"
  using assms by (auto simp: recording_at_def split: option.splits)

lemma trackUnsubscribed_store_other:
  assumes "store s r = Some x" "rec_state x \<noteq> Recording"
  shows "store (trackUnsubscribed t cb s) r = Some x"
proof (cases "recording_at s t")
  case False
  then show ?thesis using assms by (simp add: trackUnsubscribed_not_recording_eq)
next
  case True
  then obtain r' x' where *: "map_of (recorders s) t = Some r'" "store s r' = Some x'"
      "rec_state x' = Recording"
    by (rule recording_atE)
  with assms have "r' \<noteq> r" by auto
  with * assms show ?thesis by (simp add: trackUnsubscribed_recording_eq)
qed

lemma fold_unsubscribe_store_other:
  assumes "store s r = Some x" "rec_state x \<noteq> Recording"
  shows "store (fold (\<lambda>(trackid, recorder) s. trackUnsubscribed trackid cb s) es s) r = Some x"
  using assms
  by (induction es arbitrary: s) (auto simp: trackUnsubscribed_store_other)

lemma shutdown_store_other:
  assumes "store s r = Some x" "rec_state x \<noteq> Recording"
  shows "store (shutdown s) r = Some x"
  using assms
  by (simp add: shutdown_def Let_def recorders_forEach_def fold_unsubscribe_store_other
        info_def error_def emit_def resolve_def)

lemma map_of_map_delete:
  "map_of (map_delete k m) k' = (if k' = k then None else map_of m k')"
  by (induction m) (auto simp: map_delete_def)

lemma recording_at_frame:
  "recorders s' = map_delete k (recorders s) \<Longrightarrow> store s' = store s \<Longrightarrow>
   recording_at s' t \<Longrightarrow> recording_at s t"
  by (auto simp: recording_at_def map_of_map_delete split: option.splits if_splits)

lemma fold_unsubscribe_none_recording:
  assumes "\<forall>t. \<not> recording_at s t"
  shows "fold (\<lambda>(trackid, recorder) s. trackUnsubscribed trackid cb s) es s =
     s\<lparr>recorders := filter (\<lambda>e. fst e \<notin> fst ` set es) (recorders s),
       trace := trace s @ unsubscribe_log es\<rparr>"
  using assms
proof (induction es arbitrary: s)
  case Nil
  then show ?case by (simp add: unsubscribe_log_def)
next
  case (Cons e es)
  obtain t r where e: "e = (t, r)" by (cases e)
  let ?s1 = "trackUnsubscribed t cb s"
  have s1: "?s1 = s\<lparr>recorders := map_delete t (recorders s),
       trace := trace s @ [Info (''Unsubscribe from '' @ t), Error (not_recording_message t)]\<rparr>"
    using Cons.prems by (simp add: trackUnsubscribed_not_recording_eq)
  have "\<forall>t'. \<not> recording_at ?s1 t'"
    using Cons.prems recording_at_frame [of ?s1 t s] by (auto simp: s1)
  from Cons.IH [OF this] show ?case
    by (auto intro!: page.equality simp: e s1 unsubscribe_log_def map_delete_def)
qed

lemma none_recording_all: "none_recording s \<Longrightarrow> \<not> recording_at s t"
proof (cases "map_of (recorders s) t")
  case None
  then show ?thesis by (simp add: recording_at_def)
next
  case (Some r)
  assume "none_recording s"
  moreover from Some have "(t, r) \<in> set (recorders s)" by (rule map_of_SomeD)
  ultimately show ?thesis by (auto simp: none_recording_def list_all_iff)
qed

lemma shutdown_none_recording:
  assumes "recorders s \<noteq> []" "none_recording s"
  shows "shutdown s =
     s\<lparr>next_promise := next_promise s + 1,
       recorderCount := int (length (recorders s)),
       recorders := [],
       trace := trace s @ [Info ''Shutting down any remaining recorders...'']
                @ mismatch_log s @ unsubscribe_log (recorders s)\<rparr>"
proof -
  have nr: "\<not> recording_at s t" for t using assms(2) by (rule none_recording_all)
  have nr': "\<forall>t. \<not> recording_at s' t"
    if "recorders s' = recorders s" "store s' = store s" for s'
  proof
    fix t
    have "recording_at s' t = recording_at s t"
      unfolding recording_at_def that ..
    with nr show "\<not> recording_at s' t" by simp
  qed
  show ?thesis
  proof (cases "recorderCount s = int (length (recorders s))")
    case True
    let ?s1 = "s\<lparr>next_promise := next_promise s + 1,
                 trace := trace s @ [Info ''Shutting down any remaining recorders...'']\<rparr>"
    have "shutdown s = recorders_forEach (next_promise s) ?s1"
      using assms(1) True by (simp add: shutdown_def Let_def info_def emit_def)
    also have "\<dots> = ?s1\<lparr>recorders := filter (\<lambda>e. fst e \<notin> fst ` set (recorders ?s1)) (recorders ?s1),
       trace := trace ?s1 @ unsubscribe_log (recorders ?s1)\<rparr>"
      unfolding recorders_forEach_def
      by (rule fold_unsubscribe_none_recording) (rule nr', simp_all)
    also have "\<dots> = s\<lparr>next_promise := next_promise s + 1,
       recorderCount := int (length (recorders s)),
       recorders := [],
       trace := trace s @ [Info ''Shutting down any remaining recorders...'']
                @ mismatch_log s @ unsubscribe_log (recorders s)\<rparr>"
      using True by (auto intro!: page.equality simp: mismatch_log_def filter_empty_conv)
    finally show ?thesis .
  next
    case False
    let ?s1 = "s\<lparr>next_promise := next_promise s + 1,
                 recorderCount := int (length (recorders s)),
                 trace := trace s @ [Info ''Shutting down any remaining recorders...'']
                          @ mismatch_log s\<rparr>"
    have "shutdown s = recorders_forEach (next_promise s) ?s1"
      using assms(1) False
      apply (simp add: shutdown_def Let_def info_def error_def emit_def mismatch_log_def)
      apply (rule arg_cong [where f = "recorders_forEach (next_promise s)"])
      apply (auto intro!: page.equality)
      done
    also have "\<dots> = ?s1\<lparr>recorders := filter (\<lambda>e. fst e \<notin> fst ` set (recorders ?s1)) (recorders ?s1),
       trace := trace ?s1 @ unsubscribe_log (recorders ?s1)\<rparr>"
      unfolding recorders_forEach_def
      by (rule fold_unsubscribe_none_recording) (rule nr', simp_all)
    also have "\<dots> = s\<lparr>next_promise := next_promise s + 1,
       recorderCount := int (length (recorders s)),
       recorders := [],
       trace := trace s @ [Info ''Shutting down any remaining recorders...'']
                @ mismatch_log s @ unsubscribe_log (recorders s)\<rparr>"
      by (auto intro!: page.equality simp: filter_empty_conv)
    finally show ?thesis .
  qed
qed

lemma run_no_tasks: "tasks s = [] \<Longrightarrow> run n s = s"
  by (induction n) (simp_all add: tick_def)




text \<open>
  C10: when the track id has no registered recorder, or its recorder is not recording,
  \<open>trackUnsubscribed\<close> changes two things only: the entry is gone from the map and the
  \<open>Unsubscribe\<close> line and the error line are logged. The count, the recorders, the
  queued tasks and the promises are as before, and the continuation occurs nowhere in
  the result, so nothing can call it later. \<open>shutdown()\<close> leaves every recorder
  that is not recording as it was; when none of the registered recorders is
  recording, \<open>shutdown()\<close> empties the map, resets the count and logs, and queues and
  resolves nothing, so with no task pending the page stays in that state for ever:
  the promise of this call is never resolved.
\<close>

theorem unsubscribe_without_recording_recorder:
  "(\<not> recording_at s trackid \<longrightarrow>
      trackUnsubscribed trackid cb s =
        s\<lparr>recorders := map_delete trackid (recorders s),
          trace := trace s @ [Info (''Unsubscribe from '' @ trackid),
                              Error (not_recording_message trackid)]\<rparr>)
   \<and> (store s r = Some x \<and> rec_state x \<noteq> Recording \<longrightarrow> store (shutdown s) r = Some x)
   \<and> (recorders s \<noteq> [] \<and> none_recording s \<longrightarrow>
        shutdown s =
          s\<lparr>next_promise := next_promise s + 1,
            recorderCount := int (length (recorders s)),
            recorders := [],
            trace := trace s @ [Info ''Shutting down any remaining recorders...'']
                     @ mismatch_log s @ unsubscribe_log (recorders s)\<rparr>
        \<and> (tasks s = [] \<longrightarrow> (\<forall>n. run n (shutdown s) = shutdown s)))"
proof (intro conjI impI)
  assume "\<not> recording_at s trackid"
  then show "trackUnsubscribed trackid cb s =
        s\<lparr>recorders := map_delete trackid (recorders s),
          trace := trace s @ [Info (''Unsubscribe from '' @ trackid),
                              Error (not_recording_message trackid)]\<rparr>"
    by (rule trackUnsubscribed_not_recording_eq)
next
  assume "store s r = Some x \<and> rec_state x \<noteq> Recording"
  then show "store (shutdown s) r = Some x"
    by (simp add: shutdown_store_other)
next
  assume a: "recorders s \<noteq> [] \<and> none_recording s"
  then show eq: "shutdown s =
          s\<lparr>next_promise := next_promise s + 1,
            recorderCount := int (length (recorders s)),
            recorders := [],
            trace := trace s @ [Info ''Shutting down any remaining recorders...'']
                     @ mismatch_log s @ unsubscribe_log (recorders s)\<rparr>"
    by (simp add: shutdown_none_recording)
  assume "tasks s = []"
  then have "tasks (shutdown s) = []" by (simp add: eq)
  then show "\<forall>n. run n (shutdown s) = shutdown s"
    by (simp add: run_no_tasks)
qed

lemma ended_page_facts:
  "recorders ended_page = [(''a1'', 1)]" "tasks ended_page = []"
  "map_option rec_state (store ended_page 1) = Some Inactive"
  "recorderCount ended_page = 1" "none_recording ended_page"
  "\<not> recording_at ended_page ''a1''" "settled ended_page = []"
  by code_simp+


theorem unsubscribe_without_recording_recorder_witness:
  "\<not> recording_at ended_page ''a1'' \<and>
   map_option rec_state (store ended_page 1) = Some Inactive \<and>
   recorders ended_page = [(''a1'', 1)] \<and> none_recording ended_page \<and>
   tasks ended_page = [] \<and>
   recorderCount (trackUnsubscribed ''a1'' (ShutdownCallback 0) ended_page) = 1 \<and>
   tasks (trackUnsubscribed ''a1'' (ShutdownCallback 0) ended_page) = [] \<and>
   map_option rec_state (store (shutdown ended_page) 1) = Some Inactive \<and>
   settled (run 10 (shutdown ended_page)) = [] \<and>
   recorderCount (run 10 (shutdown ended_page)) = 1"
proof -
  have "\<exists>x. store ended_page 1 = Some x \<and> rec_state x = Inactive"
    using ended_page_facts(3) unfolding map_option_eq_Some by blast
  then obtain x where x: "store ended_page 1 = Some x" "rec_state x = Inactive"
    by blast
  then have x': "store ended_page 1 = Some x \<and> rec_state x \<noteq> Recording" by simp
  have ne: "recorders ended_page \<noteq> [] \<and> none_recording ended_page"
    by (simp add: ended_page_facts)
  note inst = unsubscribe_without_recording_recorder
    [of ended_page "''a1''" "ShutdownCallback 0" 1 x]
  from inst ended_page_facts(6)
  have a: "trackUnsubscribed ''a1'' (ShutdownCallback 0) ended_page =
        ended_page\<lparr>recorders := map_delete ''a1'' (recorders ended_page),
          trace := trace ended_page @ [Info (''Unsubscribe from '' @ ''a1''),
                              Error (not_recording_message ''a1'')]\<rparr>"
    by blast
  from inst x' have b: "store (shutdown ended_page) 1 = Some x" by blast
  from inst ne have c: "shutdown ended_page =
          ended_page\<lparr>next_promise := next_promise ended_page + 1,
            recorderCount := int (length (recorders ended_page)),
            recorders := [],
            trace := trace ended_page @ [Info ''Shutting down any remaining recorders...'']
                     @ mismatch_log ended_page @ unsubscribe_log (recorders ended_page)\<rparr>"
    by blast
  from inst ne ended_page_facts(2)
  have d: "run 10 (shutdown ended_page) = shutdown ended_page" by blast
  show ?thesis
    unfolding d
    by (simp add: a b x c ended_page_facts del: One_nat_def)
qed

section \<open>The idle timer\<close>

lemma main_empty_room:
  assumes "room_participants rm = []" "\<not> shouldClose s"
  shows "timers (main rm s) = timers s @ [(next_timer s, roomStartingTimeoutSeconds * 1000)]"
    and "emptyRoomTimeout (main rm s) = Some (next_timer s)"
    and "filter (\<lambda>e. \<exists>a. e = ParentClose a) (trace (main rm s))
         = filter (\<lambda>e. \<exists>a. e = ParentClose a) (trace s)"
  using assms
  by (simp_all add: main_def Let_def debug_def info_def emit_def setTimeout_parentClose_def)

lemma participantDisconnected_last:
  assumes "handlers_registered s" "room s = Some rm"
    "filter (\<lambda>q. participant_sid q \<noteq> participant_sid p) (room_participants rm) = []"
  shows "timers (handle_event (ParticipantDisconnected p) s)
         = timers s @ [(next_timer s, roomEndingTimeoutSeconds * 1000)]"
    and "emptyRoomTimeout (handle_event (ParticipantDisconnected p) s) = Some (next_timer s)"
    and "filter (\<lambda>e. \<exists>a. e = ParentClose a) (trace (handle_event (ParticipantDisconnected p) s))
         = filter (\<lambda>e. \<exists>a. e = ParentClose a) (trace s)"
  using assms
  by (simp_all add: handle_event_def room_remove_def on_participantDisconnected_def Let_def
        info_def emit_def setTimeout_parentClose_def)

lemma participantConnected_cancels:
  assumes "handlers_registered s" "emptyRoomTimeout s = Some h"
  shows "timers (handle_event (ParticipantConnected p) s) = filter (\<lambda>t. fst t \<noteq> h) (timers s)"
    and "emptyRoomTimeout (handle_event (ParticipantConnected p) s) = None"
    and "trace (handle_event (ParticipantConnected p) s)
         = trace s @ [Info (''RemoteParticipant '' @ participant_sid p @ '' connected.'')]"
  using assms
  by (auto simp: handle_event_def room_add_def on_participantConnected_def Let_def
        info_def emit_def clearTimeout_def split: option.splits)

lemma timer_fire_not_pending:
  "h \<notin> fst ` set (timers s) \<Longrightarrow> handle_event (TimerFire h) s = s"
  by (simp add: handle_event_def timer_fire_def)

lemma timer_fire_pending:
  "h \<in> fst ` set (timers s) \<Longrightarrow>
   trace (handle_event (TimerFire h) s) = trace s @ [ParentClose None]"
  by (simp add: handle_event_def timer_fire_def parentClose_def emit_def clearTimeout_def)

text \<open>
  C5: \<open>main\<close> for a room with no participants arms one timer of
  \<open>roomStartingTimeoutSeconds\<close> (600 s) and keeps its handle in \<open>emptyRoomTimeout\<close>; the
  \<open>participantDisconnected\<close> handler that finds the room empty arms one of
  \<open>roomEndingTimeoutSeconds\<close> (60 s), the shorter of the two; the \<open>participantConnected\<close>
  handler clears the timer whose handle \<open>emptyRoomTimeout\<close> holds and logs one line, so
  that timer is no longer pending (no timer at all is, when it was the only one), and
  its firing afterwards changes nothing: no \<open>parentClose\<close> call. A timer that is still
  pending when it fires calls \<open>parentClose()\<close>.
\<close>

theorem idle_timer:
  "(room_participants rm = [] \<and> \<not> shouldClose s \<longrightarrow>
      timers (main rm s) = timers s @ [(next_timer s, roomStartingTimeoutSeconds * 1000)] \<and>
      emptyRoomTimeout (main rm s) = Some (next_timer s))
   \<and> (handlers_registered s \<and> room s = Some rm \<and>
        filter (\<lambda>q. participant_sid q \<noteq> participant_sid p) (room_participants rm) = [] \<longrightarrow>
      timers (handle_event (ParticipantDisconnected p) s)
        = timers s @ [(next_timer s, roomEndingTimeoutSeconds * 1000)] \<and>
      emptyRoomTimeout (handle_event (ParticipantDisconnected p) s) = Some (next_timer s))
   \<and> roomEndingTimeoutSeconds * 1000 < roomStartingTimeoutSeconds * 1000
   \<and> (handlers_registered s \<and> emptyRoomTimeout s = Some h \<longrightarrow>
      h \<notin> fst ` set (timers (handle_event (ParticipantConnected p) s)) \<and>
      emptyRoomTimeout (handle_event (ParticipantConnected p) s) = None \<and>
      (fst ` set (timers s) \<subseteq> {h} \<longrightarrow> timers (handle_event (ParticipantConnected p) s) = []) \<and>
      handle_event (TimerFire h) (handle_event (ParticipantConnected p) s)
        = handle_event (ParticipantConnected p) s \<and>
      trace (handle_event (ParticipantConnected p) s)
        = trace s @ [Info (''RemoteParticipant '' @ participant_sid p @ '' connected.'')])
   \<and> (h \<in> fst ` set (timers s) \<longrightarrow>
      trace (handle_event (TimerFire h) s) = trace s @ [ParentClose None])"
proof (intro conjI impI)
  assume "room_participants rm = [] \<and> \<not> shouldClose s"
  then show "timers (main rm s) = timers s @ [(next_timer s, roomStartingTimeoutSeconds * 1000)]"
    and "emptyRoomTimeout (main rm s) = Some (next_timer s)"
    by (simp_all add: main_empty_room)
next
  assume "handlers_registered s \<and> room s = Some rm \<and>
        filter (\<lambda>q. participant_sid q \<noteq> participant_sid p) (room_participants rm) = []"
  then show "timers (handle_event (ParticipantDisconnected p) s)
        = timers s @ [(next_timer s, roomEndingTimeoutSeconds * 1000)]"
    and "emptyRoomTimeout (handle_event (ParticipantDisconnected p) s) = Some (next_timer s)"
    by (simp_all add: participantDisconnected_last)
next
  show "roomEndingTimeoutSeconds * 1000 < roomStartingTimeoutSeconds * 1000"
    by (simp add: roomEndingTimeoutSeconds_def roomStartingTimeoutSeconds_def)
next
  assume a: "handlers_registered s \<and> emptyRoomTimeout s = Some h"
  then have t: "timers (handle_event (ParticipantConnected p) s)
      = filter (\<lambda>t. fst t \<noteq> h) (timers s)"
    by (simp add: participantConnected_cancels)
  show np: "h \<notin> fst ` set (timers (handle_event (ParticipantConnected p) s))"
    unfolding t by auto
  show "emptyRoomTimeout (handle_event (ParticipantConnected p) s) = None"
    using a by (simp add: participantConnected_cancels)
  show "handle_event (TimerFire h) (handle_event (ParticipantConnected p) s)
        = handle_event (ParticipantConnected p) s"
    using np by (rule timer_fire_not_pending)
  show "trace (handle_event (ParticipantConnected p) s)
        = trace s @ [Info (''RemoteParticipant '' @ participant_sid p @ '' connected.'')]"
    using a by (simp add: participantConnected_cancels)
  assume "fst ` set (timers s) \<subseteq> {h}"
  then show "timers (handle_event (ParticipantConnected p) s) = []"
    unfolding t by (auto simp: filter_empty_conv)
next
  assume "h \<in> fst ` set (timers s)"
  then show "trace (handle_event (TimerFire h) s) = trace s @ [ParentClose None]"
    by (rule timer_fire_pending)
qed

lemma idle_page_facts:
  "handlers_registered idle_page" "emptyRoomTimeout idle_page = Some 0"
  "map fst (timers idle_page) = [0]"
  by (simp_all add: idle_page_def exec_def step_def enqueue_def tick_def run_task_def
        handle_event_def main_def run_microtasks_def initial_page_def empty_room_def
        demo_room_def debug_def info_def emit_def setTimeout_parentClose_def Let_def)

lemma running_page_facts:
  "handlers_registered running_page" "room running_page = Some demo_room"
  "timers running_page = []" "next_timer running_page = 0" "tasks running_page = []"
  "recorders running_page = [(''v1'', 0), (''a1'', 1)]" "recorderCount running_page = 2"
  by code_simp+

theorem idle_timer_witness:
  "room_participants empty_room = [] \<and> \<not> shouldClose (initial_page False) \<and>
   timers (main empty_room (initial_page False)) = [(0, 600000)] \<and>
   handlers_registered running_page \<and> room running_page = Some demo_room \<and>
   timers (handle_event (ParticipantDisconnected alice) running_page) = [(0, 60000)] \<and>
   emptyRoomTimeout idle_page = Some 0 \<and> map fst (timers idle_page) = [0] \<and>
   timers (handle_event (ParticipantConnected alice) idle_page) = [] \<and>
   handle_event (TimerFire 0) (handle_event (ParticipantConnected alice) idle_page)
     = handle_event (ParticipantConnected alice) idle_page \<and>
   trace (handle_event (TimerFire 0) idle_page) = trace idle_page @ [ParentClose None]"
proof -
  have a: "room_participants empty_room = [] \<and> \<not> shouldClose (initial_page False)"
    by (simp add: empty_room_def initial_page_def)
  have "timers (main empty_room (initial_page False))
      = timers (initial_page False)
        @ [(next_timer (initial_page False), roomStartingTimeoutSeconds * 1000)]"
    using idle_timer [of empty_room "initial_page False"] a by blast
  then have 1: "timers (main empty_room (initial_page False)) = [(0, 600000)]"
    by (simp add: initial_page_def roomStartingTimeoutSeconds_def)
  have b: "handlers_registered running_page \<and> room running_page = Some demo_room \<and>
      filter (\<lambda>q. participant_sid q \<noteq> participant_sid alice) (room_participants demo_room) = []"
    by (simp add: running_page_facts demo_room_def)
  have "timers (handle_event (ParticipantDisconnected alice) running_page)
      = timers running_page @ [(next_timer running_page, roomEndingTimeoutSeconds * 1000)]"
    using idle_timer [of demo_room running_page alice] b by blast
  then have 2: "timers (handle_event (ParticipantDisconnected alice) running_page) = [(0, 60000)]"
    by (simp add: running_page_facts roomEndingTimeoutSeconds_def)
  have c: "handlers_registered idle_page \<and> emptyRoomTimeout idle_page = Some 0"
    by (simp add: idle_page_facts)
  have "fst ` set (timers idle_page) = set (map fst (timers idle_page))" by simp
  then have e: "fst ` set (timers idle_page) = {0}"
    unfolding idle_page_facts(3) by simp
  then have d: "fst ` set (timers idle_page) \<subseteq> {0}" "0 \<in> fst ` set (timers idle_page)"
    by simp_all
  note inst = idle_timer [of empty_room idle_page alice 0]
  from inst c d(1) have 3: "timers (handle_event (ParticipantConnected alice) idle_page) = []"
    by blast
  from inst c have 4:
    "handle_event (TimerFire 0) (handle_event (ParticipantConnected alice) idle_page)
     = handle_event (ParticipantConnected alice) idle_page"
    by blast
  from inst d(2) have 5:
    "trace (handle_event (TimerFire 0) idle_page) = trace idle_page @ [ParentClose None]"
    by blast
  have 6: "map fst (timers idle_page) = [0]" by (rule idle_page_facts(3))
  from a b c 1 2 3 4 5 6 show ?thesis by blast
qed

section \<open>The close sequence of the host\<close>








lemma close_once_all_stages:
  assumes "\<not> h_isClosing h" "h_page h" "h_server h" "h_browser h" "err \<noteq> NoStack"
  shows "stages (fst (close_once err [Fulfilled, Fulfilled, Fulfilled, Fulfilled] h)) =
     stages h @ [EvaluateShutdown, SetTimeout 10000, ServerClose, EvaluateClose, BrowserClose,
                 Exit (if err \<noteq> NoError then 1 else 0)]"
    and "snd (close_once err [Fulfilled, Fulfilled, Fulfilled, Fulfilled] h) = None"
  using assms
  by (cases err;
      simp add: close_once_def close_call_def close_resume_def close_grace_def
        close_server_page_def close_browser_def close_exit_def h_emit_def Let_def
        stages_def is_stage_def)+





section \<open>The drain of one recorder\<close>

lemma appends_append [simp]: "appends (xs @ ys) = appends xs @ appends ys"
  by (simp add: appends_def)

lemma invocations_append [simp]: "invocations (xs @ ys) = invocations xs @ invocations ys"
  by (simp add: invocations_def)

lemma appends_simps [simp]:
  "appends [] = []"
  "appends (Info m # tr) = appends tr"
  "appends (Error m # tr) = appends tr"
  "appends (Debug m # tr) = appends tr"
  "appends (Invoke cb n # tr) = appends tr"
  "appends (CreateRecording fp mp mt # tr) = appends tr"
  "appends (RoomDisconnect # tr) = appends tr"
  "appends (ParentClose a # tr) = appends tr"
  "appends (AppendRecording fp chunk start # tr) = AppendRecording fp chunk start # appends tr"
  by (simp_all add: appends_def)

lemma creations_append [simp]: "creations (xs @ ys) = creations xs @ creations ys"
  by (simp add: creations_def)

lemma creations_simps [simp]:
  "creations [] = []"
  "creations (Info m # tr) = creations tr"
  "creations (Error m # tr) = creations tr"
  "creations (Debug m # tr) = creations tr"
  "creations (Invoke cb n # tr) = creations tr"
  "creations (CreateRecording fp mp mt # tr) = CreateRecording fp mp mt # creations tr"
  "creations (RoomDisconnect # tr) = creations tr"
  "creations (ParentClose a # tr) = creations tr"
  "creations (AppendRecording fp chunk start # tr) = creations tr"
  by (simp_all add: creations_def)

lemma invocations_simps [simp]:
  "invocations [] = []"
  "invocations (Info m # tr) = invocations tr"
  "invocations (Error m # tr) = invocations tr"
  "invocations (Debug m # tr) = invocations tr"
  "invocations (Invoke cb n # tr) = Invoke cb n # invocations tr"
  "invocations (CreateRecording fp mp mt # tr) = invocations tr"
  "invocations (RoomDisconnect # tr) = invocations tr"
  "invocations (ParentClose a # tr) = invocations tr"
  "invocations (AppendRecording fp chunk start # tr) = invocations tr"
  by (simp_all add: invocations_def)











lemma run_Suc_tick: "run (Suc n) s = tick (run n s)"
  by (induction n arbitrary: s) simp_all


lemma silent_simps [simp]:
  "silent []"
  "silent (xs @ ys) \<longleftrightarrow> silent xs \<and> silent ys"
  "silent (Info m # xs) \<longleftrightarrow> silent xs"
  "silent (Error m # xs) \<longleftrightarrow> silent xs"
  "silent (Debug m # xs) \<longleftrightarrow> silent xs"
  by (simp_all add: silent_def)













section \<open>Restarting a recorder on resize\<close>




lemma startRecorder_eq:
  assumes "room s = Some rm"
  shows "startRecorder strm tr idn s =
    s\<lparr>subscriptionCounts := (subscriptionCounts s)
          (idn @ ''.'' @ kind_name (track_kind tr) \<mapsto>
             (case subscriptionCounts s (idn @ ''.'' @ kind_name (track_kind tr)) of
                None \<Rightarrow> 0 | Some n \<Rightarrow> n) + 1),
       next_rid := next_rid s + 1,
       store := (store s)(next_rid s \<mapsto>
          \<lparr>rec_filename = join_with ''/''
              [''recordings'', room_name rm, idn @ ''.'' @ kind_name (track_kind tr),
               toString ((case subscriptionCounts s (idn @ ''.'' @ kind_name (track_kind tr)) of
                            None \<Rightarrow> 0 | Some n \<Rightarrow> n) + 1) @ ''.webm''],
            rec_mimeType = kind_name (track_kind tr) @ ''/webm;codecs='' @
              (if track_kind tr = Video then (if h264_supported s then ''h264'' else ''vp8'')
               else ''opus''),
            rec_stream = strm, rec_state = Recording, rec_buffer = [],
            rec_ondataavailable = WriteChunk
              [''recordings'', room_name rm, idn @ ''.'' @ kind_name (track_kind tr),
               toString ((case subscriptionCounts s (idn @ ''.'' @ kind_name (track_kind tr)) of
                            None \<Rightarrow> 0 | Some n \<Rightarrow> n) + 1) @ ''.webm'']
              (join_with ''/''
                [''recordings'', room_name rm, idn @ ''.'' @ kind_name (track_kind tr),
                 toString ((case subscriptionCounts s (idn @ ''.'' @ kind_name (track_kind tr)) of
                              None \<Rightarrow> 0 | Some n \<Rightarrow> n) + 1) @ ''.webm'']),
            rec_onpause = False, rec_onstop = None\<rparr>),
       recorders := map_set (track_id tr) (next_rid s) (recorders s),
       tasks := tasks s @ [FireStart (next_rid s)],
       trace := trace s @
         [Info (''Using MIME type '' @ (kind_name (track_kind tr) @ ''/webm;codecs='' @
              (if track_kind tr = Video then (if h264_supported s then ''h264'' else ''vp8'')
               else ''opus'')) @ '' to record''),
          Info (''Begin recording '' @ join_with ''/''
              [''recordings'', room_name rm, idn @ ''.'' @ kind_name (track_kind tr),
               toString ((case subscriptionCounts s (idn @ ''.'' @ kind_name (track_kind tr)) of
                            None \<Rightarrow> 0 | Some n \<Rightarrow> n) + 1) @ ''.webm''] @ ''.''),
          CreateRecording
              [''recordings'', room_name rm, idn @ ''.'' @ kind_name (track_kind tr),
               toString ((case subscriptionCounts s (idn @ ''.'' @ kind_name (track_kind tr)) of
                            None \<Rightarrow> 0 | Some n \<Rightarrow> n) + 1) @ ''.webm'']
              [''recordings'', room_name rm, idn @ ''.'' @ kind_name (track_kind tr),
               toString ((case subscriptionCounts s (idn @ ''.'' @ kind_name (track_kind tr)) of
                            None \<Rightarrow> 0 | Some n \<Rightarrow> n) + 1) @ ''.json'']
              (kind_name (track_kind tr) @ ''/webm;codecs='' @
              (if track_kind tr = Video then (if h264_supported s then ''h264'' else ''vp8'')
               else ''opus'')),
          Info (''Starting recorder for '' @ join_with ''/''
              [''recordings'', room_name rm, idn @ ''.'' @ kind_name (track_kind tr),
               toString ((case subscriptionCounts s (idn @ ''.'' @ kind_name (track_kind tr)) of
                            None \<Rightarrow> 0 | Some n \<Rightarrow> n) + 1) @ ''.webm''] @ ''.'')]\<rparr>"
  using assms
  by (auto intro!: page.equality recorder.equality
        simp: startRecorder_def Let_def recorder_start_def update_recorder_def
          info_def emit_def enqueue_def fun_eq_iff)








section \<open>Files are created before they are written\<close>

lemma created_files_append [simp]:
  "created_files (xs @ ys) = created_files xs @ created_files ys"
  by (simp add: created_files_def)

lemma created_files_simps [simp]:
  "created_files [] = []"
  "created_files (Info m # tr) = created_files tr"
  "created_files (Error m # tr) = created_files tr"
  "created_files (Debug m # tr) = created_files tr"
  "created_files (Invoke cb n # tr) = created_files tr"
  "created_files (CreateRecording fp mp mt # tr) = fp # created_files tr"
  "created_files (RoomDisconnect # tr) = created_files tr"
  "created_files (ParentClose a # tr) = created_files tr"
  "created_files (AppendRecording fp chunk start # tr) = created_files tr"
  by (simp_all add: created_files_def)

lemma created_before_append_split:
  "created_before_append seen (tr @ xs) \<longleftrightarrow>
     created_before_append seen tr \<and> created_before_append (rev (created_files tr) @ seen) xs"
  by (induction tr arbitrary: seen) (auto split: effect.splits)

lemma created_before_append_no_appends:
  "appends xs = [] \<Longrightarrow> created_before_append seen xs"
  by (induction xs arbitrary: seen) (auto simp: appends_def split: effect.splits if_splits)

lemma grows_refl: "grows s s"
  by (auto simp: grows_def)

lemma grows_trans:
  assumes "grows s s'" "grows s' s''"
  shows "grows s s''"
proof -
  from assms obtain xs ys where tr: "trace s' = trace s @ xs" "appends xs = []"
    "trace s'' = trace s' @ ys" "appends ys = []"
    by (auto simp: grows_def)
  have sub: "set (created_files (trace s')) \<subseteq> set (created_files (trace s''))"
    by (auto simp: tr)
  have st1: "\<And>r x'. store s' r = Some x' \<Longrightarrow>
        (\<exists>x. store s r = Some x \<and> base_path (rec_ondataavailable x') = base_path (rec_ondataavailable x))
        \<or> base_path (rec_ondataavailable x') \<in> set (created_files (trace s'))"
    using assms(1) by (auto simp: grows_def)
  have st2: "\<And>r x'. store s'' r = Some x' \<Longrightarrow>
        (\<exists>x. store s' r = Some x \<and> base_path (rec_ondataavailable x') = base_path (rec_ondataavailable x))
        \<or> base_path (rec_ondataavailable x') \<in> set (created_files (trace s''))"
    using assms(2) by (auto simp: grows_def)
  have tk1: "\<And>t fp. t \<in> set (tasks s') \<Longrightarrow> task_file t = Some fp \<Longrightarrow>
        t \<in> set (tasks s) \<or> fp \<in> set (created_files (trace s')) \<or>
        (\<exists>r x. store s r = Some x \<and> base_path (rec_ondataavailable x) = fp)"
    using assms(1) by (auto simp: grows_def)
  have tk2: "\<And>t fp. t \<in> set (tasks s'') \<Longrightarrow> task_file t = Some fp \<Longrightarrow>
        t \<in> set (tasks s') \<or> fp \<in> set (created_files (trace s'')) \<or>
        (\<exists>r x. store s' r = Some x \<and> base_path (rec_ondataavailable x) = fp)"
    using assms(2) by (auto simp: grows_def)
  have a: "\<exists>zs. trace s'' = trace s @ zs \<and> appends zs = []"
    by (rule exI [of _ "xs @ ys"]) (simp add: tr)
  have b: "(\<exists>x. store s r = Some x \<and> base_path (rec_ondataavailable x') = base_path (rec_ondataavailable x))
        \<or> base_path (rec_ondataavailable x') \<in> set (created_files (trace s''))"
    if "store s'' r = Some x'" for r x'
    using st2 [OF that] st1 sub by (metis subsetD)
  have c: "t \<in> set (tasks s) \<or> fp \<in> set (created_files (trace s'')) \<or>
        (\<exists>r x. store s r = Some x \<and> base_path (rec_ondataavailable x) = fp)"
    if "t \<in> set (tasks s'')" "task_file t = Some fp" for t fp
    using tk2 [OF that] tk1 [of t fp] st1 sub that(2) by (metis subsetD)
  from a b c show ?thesis unfolding grows_def by blast
qed

lemma files_created_grows:
  assumes "files_created s" "grows s s'"
  shows "files_created s'"
proof -
  from assms(2) obtain xs where tr: "trace s' = trace s @ xs" "appends xs = []"
    by (auto simp: grows_def)
  have sub: "set (created_files (trace s)) \<subseteq> set (created_files (trace s'))"
    by (auto simp: tr)
  have a: "created_before_append [] (trace s')"
    using assms(1) tr
    by (simp add: files_created_def created_before_append_split created_before_append_no_appends)
  have b: "base_path (rec_ondataavailable x') \<in> set (created_files (trace s'))"
    if "store s' r = Some x'" for r x'
    using assms that sub unfolding grows_def files_created_def by (metis subsetD)
  have c: "fp \<in> set (created_files (trace s'))"
    if "t \<in> set (tasks s')" "task_file t = Some fp" for t fp
    using assms that sub unfolding grows_def files_created_def by (metis subsetD)
  from a b c show ?thesis unfolding files_created_def by blast
qed


named_theorems grows_intros

lemma grows_then: "grows s' s'' \<Longrightarrow> grows s s' \<Longrightarrow> grows s s''"
  by (rule grows_trans)

lemma grows_same:
  assumes "trace s' = trace s" "store s' = store s" "tasks s' = tasks s"
  shows "grows s s'"
  using assms by (auto simp: grows_def)

lemma grows_fields [grows_intros]:
  "grows s s' \<Longrightarrow> grows s (s'\<lparr>room := a1\<rparr>)"
  "grows s s' \<Longrightarrow> grows s (s'\<lparr>isClosing := a2\<rparr>)"
  "grows s s' \<Longrightarrow> grows s (s'\<lparr>emptyRoomTimeout := a3\<rparr>)"
  "grows s s' \<Longrightarrow> grows s (s'\<lparr>recorders := a4\<rparr>)"
  "grows s s' \<Longrightarrow> grows s (s'\<lparr>videos := a5\<rparr>)"
  "grows s s' \<Longrightarrow> grows s (s'\<lparr>subscriptionCounts := a6\<rparr>)"
  "grows s s' \<Longrightarrow> grows s (s'\<lparr>recorderCount := a7\<rparr>)"
  "grows s s' \<Longrightarrow> grows s (s'\<lparr>listeners := a8\<rparr>)"
  "grows s s' \<Longrightarrow> grows s (s'\<lparr>next_element := a9\<rparr>)"
  "grows s s' \<Longrightarrow> grows s (s'\<lparr>timers := a10\<rparr>)"
  "grows s s' \<Longrightarrow> grows s (s'\<lparr>next_timer := a11\<rparr>)"
  "grows s s' \<Longrightarrow> grows s (s'\<lparr>handlers_registered := a12\<rparr>)"
  "grows s s' \<Longrightarrow> grows s (s'\<lparr>disconnected_seen := a13\<rparr>)"
  "grows s s' \<Longrightarrow> grows s (s'\<lparr>room_ended_seen := a14\<rparr>)"
  "grows s s' \<Longrightarrow> grows s (s'\<lparr>settled := a15\<rparr>)"
  "grows s s' \<Longrightarrow> grows s (s'\<lparr>next_promise := a16\<rparr>)"
  "grows s s' \<Longrightarrow> grows s (s'\<lparr>microtasks := a17\<rparr>)"
  "grows s s' \<Longrightarrow> grows s (s'\<lparr>clock := a18\<rparr>)"
  "grows s s' \<Longrightarrow> grows s (s'\<lparr>next_rid := a19\<rparr>)"
  by (erule grows_then [rotated], rule grows_same, simp_all)+

lemma grows_emit:
  "appends [e] = [] \<Longrightarrow> grows s s' \<Longrightarrow> grows s (emit e s')"
  by (erule grows_then [rotated]) (auto simp: grows_def emit_def)

lemma grows_log [grows_intros]:
  "grows s s' \<Longrightarrow> grows s (info m s')"
  "grows s s' \<Longrightarrow> grows s (error m s')"
  "grows s s' \<Longrightarrow> grows s (debug m s')"
  "grows s s' \<Longrightarrow> grows s (uncaught m s')"
  "grows s s' \<Longrightarrow> grows s (parentClose a s')"
  "grows s s' \<Longrightarrow> grows s (emit RoomDisconnect s')"
  "grows s s' \<Longrightarrow> grows s (emit (Invoke cb n) s')"
  by (simp_all add: info_def error_def debug_def uncaught_def parentClose_def grows_emit)

lemma grows_enqueue [grows_intros]:
  "task_file t = None \<Longrightarrow> grows s s' \<Longrightarrow> grows s (enqueue t s')"
  by (erule grows_then [rotated]) (auto simp: grows_def enqueue_def)

lemma grows_update_recorder:
  assumes "\<And>x. base_path (rec_ondataavailable (f x)) = base_path (rec_ondataavailable x)"
    and "grows s s'"
  shows "grows s (update_recorder r f s')"
proof (rule grows_then [OF _ assms(2)])
  show "grows s' (update_recorder r f s')"
    using assms(1)
    by (auto simp: grows_def update_recorder_def split: option.splits)
qed

lemma grows_recorder_methods [grows_intros]:
  "grows s s' \<Longrightarrow> grows s (recorder_start r s')"
  "grows s s' \<Longrightarrow> grows s (recorder_pause r s')"
  "grows s s' \<Longrightarrow> grows s (recorder_stop r s')"
  "grows s s' \<Longrightarrow> grows s (capture r bytes s')"
  by (auto simp: recorder_start_def recorder_pause_def recorder_stop_def capture_def
        intro!: grows_intros grows_update_recorder split: option.splits recorder_state.splits)

lemma grows_timers [grows_intros]:
  "grows s s' \<Longrightarrow> grows s (clearTimeout h s')"
  "grows s s' \<Longrightarrow> grows s (snd (setTimeout_parentClose ms s'))"
  "grows s s' \<Longrightarrow> grows s (resolve p s')"
  by (auto simp: clearTimeout_def setTimeout_parentClose_def resolve_def intro!: grows_intros)

lemma grows_startRecorder_base: "grows s (startRecorder strm tr idn s)"
proof (cases "room s")
  case None
  then show ?thesis
    by (auto simp: grows_def startRecorder_def Let_def info_def emit_def error_def uncaught_def)
next
  case (Some rm)
  show ?thesis
    unfolding startRecorder_eq [OF Some]
    by (auto simp: grows_def)
qed

lemma grows_startRecorder [grows_intros]:
  "grows s s' \<Longrightarrow> grows s (startRecorder strm tr idn s')"
  by (erule grows_then [rotated]) (rule grows_startRecorder_base)

lemma grows_ondataavailable_base:
  assumes "store s r = Some x" "base_path (rec_ondataavailable x) = base_path h"
  shows "grows s (ondataavailable h fn d s)"
  using assms
proof (induction h arbitrary: s)
  case (WriteChunk fp f)
  then show ?case
    by (auto simp: grows_def enqueue_def error_def emit_def)
next
  case (WriteLast h)
  show ?case
  proof (cases "length d = 0")
    case True
    then show ?thesis by (simp add: grows_refl)
  next
    case False
    let ?s1 = "info (''Writing last '' @ toString (length d) @ '' bytes to '' @ fn) s"
    have g1: "grows s ?s1" by (intro grows_intros grows_refl)
    have "store ?s1 r = Some x" using WriteLast.prems by (simp add: info_def emit_def)
    moreover have "base_path (rec_ondataavailable x) = base_path h"
      using WriteLast.prems by simp
    ultimately have "grows ?s1 (ondataavailable h fn d ?s1)" by (rule WriteLast.IH)
    with g1 have "grows s (ondataavailable h fn d ?s1)" by (rule grows_trans)
    then show ?thesis using False by simp
  qed
qed

lemma grows_fire_dataavailable_base: "grows s (fire_dataavailable r s)"
proof (cases "store s r")
  case None
  then show ?thesis by (simp add: fire_dataavailable_def grows_refl)
next
  case (Some x)
  let ?s1 = "update_recorder r (\<lambda>x. x\<lparr>rec_buffer := []\<rparr>) s"
  have g1: "grows s ?s1" by (rule grows_update_recorder) (simp_all add: grows_refl)
  have "store ?s1 r = Some (x\<lparr>rec_buffer := []\<rparr>)"
    using Some by (simp add: update_recorder_def)
  then have "grows ?s1 (ondataavailable (rec_ondataavailable x) (rec_filename x) (rec_buffer x) ?s1)"
    by (rule grows_ondataavailable_base) simp
  with g1 show ?thesis
    using Some by (simp add: fire_dataavailable_def grows_trans)
qed

lemma grows_fire_dataavailable [grows_intros]:
  "grows s s' \<Longrightarrow> grows s (fire_dataavailable r s')"
  by (erule grows_then [rotated]) (rule grows_fire_dataavailable_base)

lemma grows_handlers [grows_intros]:
  "grows s s' \<Longrightarrow> grows s (onstart r s')"
  "grows s s' \<Longrightarrow> grows s (onerror name s')"
  "grows s s' \<Longrightarrow> grows s (stopped_callback cb n s')"
  "grows s s' \<Longrightarrow> grows s (shutdown_then s')"
  "grows s s' \<Longrightarrow> grows s (close s')"
  by (auto simp: onstart_def onerror_def stopped_callback_def shutdown_then_def close_def Let_def
        intro!: grows_intros split: option.splits callback.splits)

lemma grows_onpause [grows_intros]: "grows s s' \<Longrightarrow> grows s (onpause r s')"
  by (auto simp: onpause_def Let_def intro!: grows_intros grows_update_recorder
        split: option.splits)

lemma grows_onstop [grows_intros]: "grows s s' \<Longrightarrow> grows s (onstop r cb s')"
  by (auto simp: onstop_def Let_def intro!: grows_intros split: option.splits)

lemma grows_trackUnsubscribed [grows_intros]:
  "grows s s' \<Longrightarrow> grows s (trackUnsubscribed t cb s')"
  by (auto simp: trackUnsubscribed_def Let_def intro!: grows_intros grows_update_recorder
        split: option.splits)

lemma grows_fold:
  assumes "\<And>a s s'. grows s s' \<Longrightarrow> grows s (f a s')" "grows s s'"
  shows "grows s (fold f xs s')"
  using assms(2) by (induction xs arbitrary: s') (auto intro: assms(1))

lemma grows_shutdown [grows_intros]: "grows s s' \<Longrightarrow> grows s (shutdown s')"
  by (auto simp: shutdown_def recorders_forEach_def Let_def
        intro!: grows_fold grows_intros split: prod.splits)

lemma grows_run_microtasks [grows_intros]: "grows s s' \<Longrightarrow> grows s (run_microtasks s')"
  by (auto simp: run_microtasks_def intro!: grows_fold grows_intros)

lemma grows_record_track [grows_intros]:
  "grows s s' \<Longrightarrow> grows s (record_track tr p s')"
  "grows s s' \<Longrightarrow> grows s (trackSubscribed tr p s')"
  "grows s s' \<Longrightarrow> grows s (onresize tr idn s')"
  by (auto simp: record_track_def trackSubscribed_def onresize_def Let_def
        intro!: grows_intros split: option.splits)

lemma grows_main [grows_intros]: "grows s s' \<Longrightarrow> grows s (main rm s')"
  by (auto simp: main_def Let_def setTimeout_parentClose_def
        intro!: grows_fold grows_intros split: prod.splits)

lemma grows_room_handlers [grows_intros]:
  "grows s s' \<Longrightarrow> grows s (room_add p s')"
  "grows s s' \<Longrightarrow> grows s (room_remove p s')"
  "grows s s' \<Longrightarrow> grows s (set_room_disconnected s')"
  "grows s s' \<Longrightarrow> grows s (on_participantConnected p s')"
  "grows s s' \<Longrightarrow> grows s (on_participantDisconnected p s')"
  "grows s s' \<Longrightarrow> grows s (on_trackSubscribed tr p s')"
  "grows s s' \<Longrightarrow> grows s (on_trackUnsubscribed tr p s')"
  "grows s s' \<Longrightarrow> grows s (on_disconnected err s')"
  "grows s s' \<Longrightarrow> grows s (on_room_ended s')"
  "grows s s' \<Longrightarrow> grows s (timer_fire h s')"
  by (auto simp: room_add_def room_remove_def set_room_disconnected_def
        on_participantConnected_def on_participantDisconnected_def on_trackSubscribed_def
        on_trackUnsubscribed_def on_disconnected_def on_room_ended_def timer_fire_def
        setTimeout_parentClose_def Let_def
        intro!: grows_intros split: option.splits prod.splits)

lemma grows_handle_event [grows_intros]: "grows s s' \<Longrightarrow> grows s (handle_event e s')"
  by (cases e)
     (auto simp: handle_event_def Let_def intro!: grows_intros split: option.splits prod.splits)

lemma files_created_fileReader_onload:
  assumes "files_created s" "fp \<in> set (created_files (trace s))"
  shows "files_created (fileReader_onload fp fn d s)"
  using assms
  by (auto simp: files_created_def fileReader_onload_def Let_def info_def emit_def
        created_before_append_split)

lemma grows_run_task:
  "task_file t = None \<Longrightarrow> grows s (run_task t s)"
  by (cases t)
     (auto simp: run_task_def Let_def intro!: grows_intros grows_refl split: option.splits)

lemma files_created_run_task:
  assumes "files_created s" "\<And>fp. task_file t = Some fp \<Longrightarrow> fp \<in> set (created_files (trace s))"
  shows "files_created (run_task t s)"
proof (cases "task_file t")
  case None
  then show ?thesis using assms(1) by (blast intro: files_created_grows grows_run_task)
next
  case (Some fp)
  then obtain fn d where t: "t = FileReaderLoad fp fn d" by (cases t) auto
  with assms show ?thesis
    by (simp add: run_task_def files_created_fileReader_onload)
qed

lemma files_created_tick:
  assumes "files_created s"
  shows "files_created (tick s)"
proof (cases "tasks s")
  case Nil
  then show ?thesis using assms by (simp add: tick_def)
next
  case (Cons t ts)
  let ?s1 = "s\<lparr>tasks := ts\<rparr>"
  have 1: "files_created ?s1"
    using assms Cons by (auto simp: files_created_def)
  have 2: "fp \<in> set (created_files (trace ?s1))" if "task_file t = Some fp" for fp
    using assms Cons that by (auto simp: files_created_def)
  have "files_created (run_task t ?s1)" using 1 2 by (rule files_created_run_task)
  then have "files_created (run_microtasks (run_task t ?s1))"
    by (rule files_created_grows) (intro grows_intros grows_refl)
  then show ?thesis using Cons by (simp add: tick_def)
qed

lemma files_created_step:
  assumes "files_created s"
  shows "files_created (step a s)"
proof (cases a)
  case Tick
  then show ?thesis using assms by (simp add: step_def files_created_tick)
next
  case (Post e)
  have "grows s (enqueue (External e) s)" by (intro grows_intros grows_refl) simp
  with assms show ?thesis using Post by (simp add: step_def files_created_grows)
next
  case (Capture r bytes)
  have "grows s (capture r bytes s)" by (intro grows_intros grows_refl)
  with assms show ?thesis using Capture by (simp add: step_def files_created_grows)
next
  case (Advance n)
  have "grows s (s\<lparr>clock := clock s + n\<rparr>)" by (intro grows_intros grows_refl)
  with assms show ?thesis using Advance by (simp add: step_def files_created_grows)
qed

lemma files_created_exec:
  "files_created s \<Longrightarrow> files_created (exec as s)"
  unfolding exec_def by (induction as arbitrary: s) (simp_all add: files_created_step)

lemma files_created_initial: "files_created (initial_page h264)"
  by (simp add: files_created_def initial_page_def)

lemma created_before_append_exec:
  "created_before_append [] (trace (exec as (initial_page h264)))"
  using files_created_exec [OF files_created_initial] by (simp add: files_created_def)

text \<open>The host issues its writes in the order of the calls.\<close>

lemma host_receive_pending:
  "h_pending (host_receive e h) =
     h_pending h @
     (case e of
        CreateRecording fp mp mt \<Rightarrow>
          [\<lparr>w_path = mp, w_data = stringToArrayBuffer (js_of_string (metaString (h_now h) mt)),
            w_callback = MetadataWritten fp\<rparr>]
      | AppendRecording fp chunk start \<Rightarrow>
          [\<lparr>w_path = fp, w_data = stringToArrayBuffer chunk,
            w_callback = ChunkWritten (join_with ''/'' fp) start\<rparr>]
      | _ \<Rightarrow> [])"
  by (cases e)
     (auto simp: host_receive_def h_emit_def createRecording_def appendRecording_def
        appendFile_def Let_def close_call_def close_grace_def
        split: option.splits close_argument.splits)

lemma deliver_pending:
  "\<exists>ws. h_pending (deliver tr h) = h_pending h @ ws \<and>
        (\<forall>seen. metadata_first seen ws = created_before_append seen tr)"
proof (induction tr arbitrary: h)
  case Nil
  show ?case by (simp add: deliver_def)
next
  case (Cons e tr)
  obtain ws where ws: "h_pending (deliver tr (host_receive e h)) = h_pending (host_receive e h) @ ws"
    "\<And>seen. metadata_first seen ws = created_before_append seen tr"
    using Cons [of "host_receive e h"] by blast
  define w where "w = (case e of
        CreateRecording fp mp mt \<Rightarrow>
          [\<lparr>w_path = mp, w_data = stringToArrayBuffer (js_of_string (metaString (h_now h) mt)),
            w_callback = MetadataWritten fp\<rparr>]
      | AppendRecording fp chunk start \<Rightarrow>
          [\<lparr>w_path = fp, w_data = stringToArrayBuffer chunk,
            w_callback = ChunkWritten (join_with ''/'' fp) start\<rparr>]
      | _ \<Rightarrow> [])"
  have p: "h_pending (host_receive e h) = h_pending h @ w"
    unfolding w_def by (rule host_receive_pending)
  have "h_pending (deliver (e # tr) h) = h_pending h @ (w @ ws)"
    by (simp add: deliver_def ws(1) [unfolded deliver_def] p)
  moreover have "metadata_first seen (w @ ws) = created_before_append seen (e # tr)" for seen
    by (cases e) (simp_all add: w_def ws(2))
  ultimately show ?case by blast
qed

lemma metadata_first_deliver:
  assumes "h_pending h = []"
  shows "metadata_first [] (h_pending (deliver tr h)) = created_before_append [] tr"
  using deliver_pending [of tr h] assms by auto

section \<open>Metadata and chunks\<close>

lemma createRecording_pending:
  "h_pending (createRecording fp mp mt h) =
     h_pending h @
     [\<lparr>w_path = mp, w_data = stringToArrayBuffer (js_of_string (metaString (h_now h) mt)),
       w_callback = MetadataWritten fp\<rparr>]"
  "h_files (createRecording fp mp mt h) = h_files h"
  by (simp_all add: createRecording_def appendFile_def h_emit_def Let_def)

text \<open>
  C7, as the code has it. In every run of the page from its initial state, whatever
  happens around it, each \<open>appendRecording\<close> call comes after a \<open>createRecording\<close> call
  for the same file; the host, handling the calls in that order, calls \<open>appendFile\<close>
  for the metadata of a file before it calls \<open>appendFile\<close> for any chunk of it.
  \<open>createRecording\<close> leaves the metadata write pending, with the JSON of the creation
  time and the content type as its bytes: when it returns, nothing has been written.
\<close>

theorem metadata_write_issued_first:
  "created_before_append [] (trace (exec as (initial_page h264))) \<and>
   metadata_first [] (h_pending (deliver (trace (exec as (initial_page h264))) running_host)) \<and>
   h_pending (createRecording fp mp mt h) =
     h_pending h @
     [\<lparr>w_path = mp, w_data = stringToArrayBuffer (js_of_string (metaString (h_now h) mt)),
       w_callback = MetadataWritten fp\<rparr>] \<and>
   h_files (createRecording fp mp mt h) = h_files h"
proof -
  have "h_pending running_host = []" by (simp add: running_host_def)
  then show ?thesis
    by (simp add: metadata_first_deliver created_before_append_exec createRecording_pending)
qed

lemma session_facts:
  "length (appends (trace (exec session_actions (initial_page False)))) = 1"
  "length (creations (trace (exec session_actions (initial_page False)))) = 2"
  by code_simp+

theorem metadata_write_issued_first_witness:
  "length (appends (trace (exec session_actions (initial_page False)))) = 1 \<and>
   length (creations (trace (exec session_actions (initial_page False)))) = 2 \<and>
   created_before_append [] (trace (exec session_actions (initial_page False))) \<and>
   metadata_first []
     (h_pending (deliver (trace (exec session_actions (initial_page False))) running_host))"
  using metadata_write_issued_first [of session_actions False] session_facts by blast


lemma recording_metadata_differ: "recording_file a b k n \<noteq> metadata_file a b k m"
  by (simp add: recording_file_def metadata_file_def)

text \<open>
  C7 as stated fails: nothing makes the chunk wait for the metadata. When the write of
  the chunk completes before the write of the metadata, the recording file has its
  first chunk while the metadata file does not exist.
\<close>

theorem metadata_not_written_counterexample:
  "h_files racing_host (recording_file ''demo'' ''alice'' Audio 1) = Some [1, 2, 3] \<and>
   h_files racing_host (metadata_file ''demo'' ''alice'' Audio 1) = None \<and>
   map w_path (h_pending racing_host) = [metadata_file ''demo'' ''alice'' Audio 1] \<and>
   \<not> metadata_on_disk
       [(recording_file ''demo'' ''alice'' Audio 1, metadata_file ''demo'' ''alice'' Audio 1)]
       racing_host"
proof -
  have d: "stringToArrayBuffer (fromCharCode [1, 2, 3]) = [1, 2, 3]"
    by (simp add: stringToArrayBuffer_map fromCharCode_def byte_code_unit_byte)
  have ne: "metadata_file ''demo'' ''alice'' Audio 1 \<noteq> recording_file ''demo'' ''alice'' Audio 1"
    using recording_metadata_differ [of "''demo''" "''alice''" Audio 1 1] by simp
  have f: "h_files racing_host (recording_file ''demo'' ''alice'' Audio 1) = Some [1, 2, 3]"
    "h_files racing_host (metadata_file ''demo'' ''alice'' Audio 1) = None"
    "map w_path (h_pending racing_host) = [metadata_file ''demo'' ''alice'' Audio 1]"
    using ne
    by (simp_all add: racing_host_def complete_write_def host_receive_def createRecording_def
          appendRecording_def appendFile_def h_emit_def run_write_callback_def Let_def d
          running_host_def)
  then show ?thesis by (simp add: metadata_on_disk_def)
qed

section \<open>The drain of a shutdown\<close>

lemma marks_append [simp]: "marks (xs @ ys) = marks xs @ marks ys"
  by (simp add: marks_def)

lemma marks_simps [simp]:
  "marks [] = []"
  "marks (Info m # tr) = marks tr"
  "marks (Error m # tr) = marks tr"
  "marks (Debug m # tr) = marks tr"
  "marks (Invoke cb n # tr) = Invoke cb n # marks tr"
  "marks (CreateRecording fp mp mt # tr) = marks tr"
  "marks (RoomDisconnect # tr) = RoomDisconnect # marks tr"
  "marks (ParentClose a # tr) = marks tr"
  "marks (AppendRecording fp chunk start # tr) = marks tr"
  by (simp_all add: marks_def)



lemma invocations_stop_calls [simp]: "invocations (stop_calls cb c n) = stop_calls cb c n"
  by (induction n arbitrary: c) simp_all





























end
